theory Spec2Isabelle
  imports Complex_Main "HOL-Library.Word"
begin

section \<open>Script classification (linebreak\_sa.cpp)\<close>

text \<open>Modelled from the spec: the typedef of \<open>lChar32\<close> (header lvtypes.h) is not among
  the sources. The specification calls the text a buffer of 32-bit code points, and
  \<open>BreakSALine\<close> casts it to \<open>const char32_t *\<close>, so a code point is a 32-bit word
  compared as an unsigned value. Read as a signed value the classifier gives the same
  result on every bit pattern: a value with the top bit set is in none of the four
  intervals either way.\<close>

type_synonym lChar32 = "32 word"

text \<open>Positions and return values are the source's \<open>int32_t\<close>, read as integers.
  \<open>int32\<close> is the value a 32-bit two's complement register holds for an integer: the
  identity from \<open>-2147483648\<close> to \<open>2147483647\<close>, wrapping around outside.\<close>

definition int32 :: "int \<Rightarrow> int" where
  "int32 x = (x + 2147483648) mod 4294967296 - 2147483648"

datatype SALang = THAI | LAO | BURMESE | KHMER | UNK

definition classify_language :: "lChar32 \<Rightarrow> SALang" where
  "classify_language ch =
     (if 0x0E00 \<le> ch \<and> ch < 0x0E80 then THAI
      else if 0x0E80 \<le> ch \<and> ch < 0x0F00 then LAO
      else if 0x1000 \<le> ch \<and> ch < 0x10A0 then BURMESE
      else if 0x1780 \<le> ch \<and> ch < 0x1800 then KHMER
      else UNK)"

section \<open>Array views and numeric primitives (lstmbe.cpp)\<close>

text \<open>The single-precision operations the engine uses are a parameter: every result
  below that does not name a concrete instance holds for any choice of them, so for IEEE
  arithmetic with its rounding and NaNs as well.\<close>

record 'f float_ops =
  fzero :: "'f"
  fone :: "'f"
  fadd :: "'f \<Rightarrow> 'f \<Rightarrow> 'f"
  fmul :: "'f \<Rightarrow> 'f \<Rightarrow> 'f"
  fdiv :: "'f \<Rightarrow> 'f \<Rightarrow> 'f"
  fneg :: "'f \<Rightarrow> 'f"
  fexp :: "'f \<Rightarrow> 'f"
  ftanh :: "'f \<Rightarrow> 'f"
  fgt :: "'f \<Rightarrow> 'f \<Rightarrow> bool"

text \<open>A \<open>const float*\<close> is the memory it points into, indexed from the pointer.\<close>

type_synonym 'f ptr = "nat \<Rightarrow> 'f"

definition ptr_add :: "'f ptr \<Rightarrow> nat \<Rightarrow> 'f ptr" where
  "ptr_add p k = (\<lambda>i. p (k + i))"

text \<open>The interface \<open>ReadArray1D\<close>: a length and a getter.\<close>

record 'f ReadArray1D =
  r1_d1 :: nat
  r1_get :: "nat \<Rightarrow> 'f"

definition ConstArray1D :: "'f ptr \<Rightarrow> nat \<Rightarrow> 'f ReadArray1D" where
  "ConstArray1D data n = \<lparr>r1_d1 = n, r1_get = (\<lambda>i. data i)\<rparr>"

record 'f ConstArray2D =
  c2_data :: "'f ptr"
  c2_d1 :: nat
  c2_d2 :: nat

definition ConstArray2D_init :: "'f ptr \<Rightarrow> nat \<Rightarrow> nat \<Rightarrow> 'f ConstArray2D" where
  "ConstArray2D_init data n m = \<lparr>c2_data = data, c2_d1 = n, c2_d2 = m\<rparr>"

definition ConstArray2D_get :: "'f ConstArray2D \<Rightarrow> nat \<Rightarrow> nat \<Rightarrow> 'f" where
  "ConstArray2D_get a i j = c2_data a (i * c2_d2 a + j)"

definition ConstArray2D_row :: "'f ConstArray2D \<Rightarrow> nat \<Rightarrow> 'f ReadArray1D" where
  "ConstArray2D_row a i = ConstArray1D (ptr_add (c2_data a) (i * c2_d2 a)) (c2_d2 a)"

text \<open>An owned \<open>Array1D\<close> is the list of its elements; \<open>Array1D(d1)\<close> is
  \<open>calloc\<close>, all zero. Seen through the read interface it is \<open>Array1D_view\<close>.\<close>

definition Array1D_new :: "'f float_ops \<Rightarrow> nat \<Rightarrow> 'f list" where
  "Array1D_new ops n = replicate n (fzero ops)"

definition Array1D_view :: "'f list \<Rightarrow> 'f ReadArray1D" where
  "Array1D_view xs = \<lparr>r1_d1 = length xs, r1_get = (\<lambda>i. xs ! i)\<rparr>"

text \<open>\<open>maxIndex\<close>: the loop from index 1 on, carrying \<open>index\<close> and \<open>max\<close>; the
  comparison is the strict \<open>data_[i] > max\<close>. On an empty array the source reads
  \<open>data_[0]\<close>, never compares it, and returns 0.\<close>

fun maxIndex_loop :: "('f \<Rightarrow> 'f \<Rightarrow> bool) \<Rightarrow> 'f list \<Rightarrow> nat \<Rightarrow> nat \<Rightarrow> 'f \<Rightarrow> nat" where
  "maxIndex_loop gt [] i index mx = index"
| "maxIndex_loop gt (x # xs) i index mx =
     (if gt x mx then maxIndex_loop gt xs (i + 1) i x
      else maxIndex_loop gt xs (i + 1) index mx)"

definition maxIndex :: "('f \<Rightarrow> 'f \<Rightarrow> bool) \<Rightarrow> 'f list \<Rightarrow> nat" where
  "maxIndex gt data = (case data of [] \<Rightarrow> 0 | x # xs \<Rightarrow> maxIndex_loop gt xs 1 0 x)"

text \<open>\<open>slice(from, size)\<close> shares storage with its parent: reading it is
  \<open>slice\<close>, and an in-place operation \<open>f\<close> on it is \<open>on_slice\<close>, which writes the
  result back into the parent.\<close>

definition slice :: "'f list \<Rightarrow> nat \<Rightarrow> nat \<Rightarrow> 'f list" where
  "slice xs from sz = take sz (drop from xs)"

definition on_slice :: "'f list \<Rightarrow> nat \<Rightarrow> nat \<Rightarrow> ('f list \<Rightarrow> 'f list) \<Rightarrow> 'f list" where
  "on_slice xs from sz f = take from xs @ f (slice xs from sz) @ drop (from + sz) xs"

definition addDotProduct ::
  "'f float_ops \<Rightarrow> 'f list \<Rightarrow> 'f ReadArray1D \<Rightarrow> 'f ConstArray2D \<Rightarrow> 'f list" where
  "addDotProduct ops y a b =
     map (\<lambda>i. fold (\<lambda>j acc. fadd ops acc (fmul ops (r1_get a j) (ConstArray2D_get b j i)))
                    [0..<r1_d1 a] (y ! i))
         [0..<length y]"

definition hadamardProduct :: "'f float_ops \<Rightarrow> 'f list \<Rightarrow> 'f ReadArray1D \<Rightarrow> 'f list" where
  "hadamardProduct ops y a = map (\<lambda>i. fmul ops (y ! i) (r1_get a i)) [0..<length y]"

definition addHadamardProduct ::
  "'f float_ops \<Rightarrow> 'f list \<Rightarrow> 'f ReadArray1D \<Rightarrow> 'f ReadArray1D \<Rightarrow> 'f list" where
  "addHadamardProduct ops y a b =
     map (\<lambda>i. fadd ops (y ! i) (fmul ops (r1_get a i) (r1_get b i))) [0..<length y]"

definition assign :: "'f list \<Rightarrow> 'f ReadArray1D \<Rightarrow> 'f list" where
  "assign y a = map (\<lambda>i. r1_get a i) [0..<length y]"

definition tanh_of :: "'f float_ops \<Rightarrow> 'f list \<Rightarrow> 'f ReadArray1D \<Rightarrow> 'f list" where
  "tanh_of ops y a = map (\<lambda>i. ftanh ops (r1_get a i)) [0..<length y]"

definition tanh_inplace :: "'f float_ops \<Rightarrow> 'f list \<Rightarrow> 'f list" where
  "tanh_inplace ops y = tanh_of ops y (Array1D_view y)"

definition sigmoid :: "'f float_ops \<Rightarrow> 'f list \<Rightarrow> 'f list" where
  "sigmoid ops y =
     map (\<lambda>i. fdiv ops (fone ops) (fadd ops (fone ops) (fexp ops (fneg ops (y ! i)))))
         [0..<length y]"

definition clear :: "'f float_ops \<Rightarrow> 'f list \<Rightarrow> 'f list" where
  "clear ops y = replicate (length y) (fzero ops)"

text \<open>\<open>Array2D\<close>: row-major storage of \<open>d1 * d2\<close> zeroed elements; \<open>row(i)\<close>
  aliases the elements from \<open>i * d2\<close> on.\<close>

record 'f Array2D =
  a2_data :: "'f list"
  a2_d1 :: nat
  a2_d2 :: nat

definition Array2D_new :: "'f float_ops \<Rightarrow> nat \<Rightarrow> nat \<Rightarrow> 'f Array2D" where
  "Array2D_new ops n m = \<lparr>a2_data = replicate (n * m) (fzero ops), a2_d1 = n, a2_d2 = m\<rparr>"

definition Array2D_row :: "'f Array2D \<Rightarrow> nat \<Rightarrow> 'f list" where
  "Array2D_row a i = slice (a2_data a) (i * a2_d2 a) (a2_d2 a)"

definition Array2D_on_row :: "'f Array2D \<Rightarrow> nat \<Rightarrow> ('f list \<Rightarrow> 'f list) \<Rightarrow> 'f Array2D" where
  "Array2D_on_row a i f = a\<lparr>a2_data := on_slice (a2_data a) (i * a2_d2 a) (a2_d2 a) f\<rparr>"

section \<open>The engine (lstmbe.cpp)\<close>

text \<open>The BIES labels are a C enum, so they are the integers 0 to 3.\<close>

definition BEGIN :: nat where "BEGIN = 0"
definition INSIDE :: nat where "INSIDE = 1"
definition END :: nat where "END = 2"
definition SINGLE :: nat where "SINGLE = 3"

text \<open>\<open>struct lstm_data\<close>, the externally provided model blob. \<open>mapping\<close> returns
  the row of the embedding matrix for a code point.\<close>

record 'f lstm_data =
  num_index :: nat
  embedding_size :: nat
  hunits :: nat
  mapping :: "lChar32 \<Rightarrow> nat"
  matrices :: "'f ptr"

record 'f LSTMData =
  model :: "'f lstm_data"
  fEmbedding :: "'f ConstArray2D"
  fForwardW :: "'f ConstArray2D"
  fForwardU :: "'f ConstArray2D"
  fForwardB :: "'f ReadArray1D"
  fBackwardW :: "'f ConstArray2D"
  fBackwardU :: "'f ConstArray2D"
  fBackwardB :: "'f ReadArray1D"
  fOutputW :: "'f ConstArray2D"
  fOutputB :: "'f ReadArray1D"

text \<open>The constructor \<open>LSTMData::LSTMData\<close> carves the blob into nine views; each
  \<open>p\<close> below is \<open>matrices\<close> after the preceding \<open>matrices += mat_size\<close>.\<close>

definition LSTMData_init :: "'f lstm_data \<Rightarrow> 'f LSTMData" where
  "LSTMData_init m =
     (let mat1_size = (num_index m + 1) * embedding_size m;
          mat2_size = embedding_size m * 4 * hunits m;
          mat3_size = hunits m * 4 * hunits m;
          mat4_size = 4 * hunits m;
          mat5_size = mat2_size;
          mat6_size = mat3_size;
          mat7_size = mat4_size;
          mat8_size = 2 * hunits m * 4;
          p1 = matrices m;
          p2 = ptr_add p1 mat1_size;
          p3 = ptr_add p2 mat2_size;
          p4 = ptr_add p3 mat3_size;
          p5 = ptr_add p4 mat4_size;
          p6 = ptr_add p5 mat5_size;
          p7 = ptr_add p6 mat6_size;
          p8 = ptr_add p7 mat7_size;
          p9 = ptr_add p8 mat8_size
      in \<lparr>model = m,
          fEmbedding = ConstArray2D_init p1 (num_index m + 1) (embedding_size m),
          fForwardW = ConstArray2D_init p2 (embedding_size m) (4 * hunits m),
          fForwardU = ConstArray2D_init p3 (hunits m) (4 * hunits m),
          fForwardB = ConstArray1D p4 (4 * hunits m),
          fBackwardW = ConstArray2D_init p5 (embedding_size m) (4 * hunits m),
          fBackwardU = ConstArray2D_init p6 (hunits m) (4 * hunits m),
          fBackwardB = ConstArray1D p7 (4 * hunits m),
          fOutputW = ConstArray2D_init p8 (2 * hunits m) 4,
          fOutputB = ConstArray1D p9 4\<rparr>)"

text \<open>\<open>compute\<close>: one LSTM time step. \<open>h\<close>, \<open>c\<close> and the scratch array \<open>ifco\<close> are
  updated in place, so the three are returned; \<open>hu\<close> is the parameter \<open>hunits\<close>.\<close>

definition compute ::
  "'f float_ops \<Rightarrow> nat \<Rightarrow> 'f ConstArray2D \<Rightarrow> 'f ConstArray2D \<Rightarrow> 'f ReadArray1D \<Rightarrow>
   'f ReadArray1D \<Rightarrow> 'f list \<Rightarrow> 'f list \<Rightarrow> 'f list \<Rightarrow> 'f list \<times> 'f list \<times> 'f list" where
  "compute ops hu W U b x h c ifco =
     (let ifco1 = addDotProduct ops (addDotProduct ops (assign ifco b) x W) (Array1D_view h) U;
          ifco2 = on_slice ifco1 (0 * hu) hu (sigmoid ops);
          ifco3 = on_slice ifco2 (1 * hu) hu (sigmoid ops);
          ifco4 = on_slice ifco3 (2 * hu) hu (tanh_inplace ops);
          ifco5 = on_slice ifco4 (3 * hu) hu (sigmoid ops);
          c1 = addHadamardProduct ops
                 (hadamardProduct ops c (Array1D_view (slice ifco5 hu hu)))
                 (Array1D_view (slice ifco5 0 hu)) (Array1D_view (slice ifco5 (2 * hu) hu));
          h1 = hadamardProduct ops (tanh_of ops h (Array1D_view c1))
                 (Array1D_view (slice ifco5 (3 * hu) hu))
      in (h1, c1, ifco5))"

text \<open>The backward pass, \<open>for (i = input_seq_len - 1; i >= 0; i--)\<close>: the counter of
  the recursion is \<open>i + 1\<close>. \<open>hRow\<close> aliases row \<open>i\<close> of \<open>hBackward\<close>, so what
  \<open>assign\<close> and \<open>compute\<close> write to it is written to that row.\<close>

fun backward_loop ::
  "'f float_ops \<Rightarrow> 'f LSTMData \<Rightarrow> nat list \<Rightarrow> nat \<Rightarrow> nat \<Rightarrow> nat \<Rightarrow>
   'f Array2D \<times> 'f list \<times> 'f list \<Rightarrow> 'f Array2D \<times> 'f list \<times> 'f list" where
  "backward_loop ops fData indices hu input_seq_len 0 st = st"
| "backward_loop ops fData indices hu input_seq_len (Suc i) (hBackward, c, ifco) =
     (let hRow = Array2D_row hBackward i;
          hRow1 = (if i \<noteq> input_seq_len - 1
                   then assign hRow (Array1D_view (Array2D_row hBackward (i + 1)))
                   else hRow);
          (hRow2, c1, ifco1) =
             compute ops hu (fBackwardW fData) (fBackwardU fData) (fBackwardB fData)
               (ConstArray2D_row (fEmbedding fData) (indices ! i)) hRow1 c ifco
      in backward_loop ops fData indices hu input_seq_len i
           (Array2D_on_row hBackward i (\<lambda>_. hRow2), c1, ifco1))"

text \<open>One iteration of the fused forward pass, up to the decoded label \<open>current\<close>.
  \<open>forwardRow\<close> and \<open>backwardRow\<close> alias the two halves of \<open>fbRow\<close>.\<close>

definition forward_body ::
  "'f float_ops \<Rightarrow> 'f LSTMData \<Rightarrow> nat list \<Rightarrow> 'f Array2D \<Rightarrow> nat \<Rightarrow> nat \<Rightarrow>
   'f list \<times> 'f list \<times> 'f list \<times> 'f list \<Rightarrow> ('f list \<times> 'f list \<times> 'f list \<times> 'f list) \<times> nat" where
  "forward_body ops fData indices hBackward hu i st =
     (case st of (fbRow, c, ifco, logp) \<Rightarrow>
        (let forwardRow = slice fbRow 0 hu;
             (forwardRow1, c1, ifco1) =
                compute ops hu (fForwardW fData) (fForwardU fData) (fForwardB fData)
                  (ConstArray2D_row (fEmbedding fData) (indices ! i)) forwardRow c ifco;
             fbRow1 = on_slice fbRow 0 hu (\<lambda>_. forwardRow1);
             fbRow2 = on_slice fbRow1 hu hu
                        (\<lambda>backwardRow. assign backwardRow (Array1D_view (Array2D_row hBackward i)));
             logp1 = addDotProduct ops (assign logp (fOutputB fData)) (Array1D_view fbRow2)
                        (fOutputW fData);
             current = maxIndex (fgt ops) logp1
         in ((fbRow2, c1, ifco1, logp1), current)))"

text \<open>The forward loop with the BIES logic; \<open>found\<close> is the sequence of positions
  passed to \<open>foundBreak\<close> so far.\<close>

function forward_loop ::
  "'f float_ops \<Rightarrow> 'f LSTMData \<Rightarrow> nat list \<Rightarrow> 'f Array2D \<Rightarrow> nat \<Rightarrow> int \<Rightarrow> nat \<Rightarrow> nat \<Rightarrow>
   ('f list \<times> 'f list \<times> 'f list \<times> 'f list) \<times> int list \<Rightarrow>
   ('f list \<times> 'f list \<times> 'f list \<times> 'f list) \<times> int list" where
  "forward_loop ops fData indices hBackward hu startPos input_seq_len i (st, found) =
     (if i < input_seq_len then
        (let (st1, current) = forward_body ops fData indices hBackward hu i st;
             found1 = (if current = BEGIN \<or> current = SINGLE
                       then (if i \<noteq> 0 then found @ [startPos + int i] else found)
                       else found)
         in forward_loop ops fData indices hBackward hu startPos input_seq_len (i + 1)
              (st1, found1))
      else (st, found))"
  by pat_completeness auto
termination
  by (relation "measure (\<lambda>(ops, fData, indices, hBackward, hu, startPos, n, i, s). n - i)") auto

declare forward_loop.simps [simp del]

text \<open>\<open>breakWord\<close> returns its \<open>int32_t\<close> result and the positions it passed to
  \<open>foundBreak\<close>, in order. The length \<open>endPos - startPos\<close> is computed in
  \<open>int32_t\<close>, so it wraps around when the difference leaves the 32-bit range: from
  \<open>startPos = -2147483648\<close> to \<open>endPos = 1\<close> it is \<open>-2147483647\<close>, which passes the
  guard. A negative length runs no loop iteration, as length 0. Where a loop runs on a
  range with \<open>startPos \<le> endPos\<close>, the position \<open>startPos + i\<close> is below \<open>endPos\<close>
  and does not wrap.\<close>

definition breakWord ::
  "'f float_ops \<Rightarrow> 'f LSTMData \<Rightarrow> (int \<Rightarrow> lChar32) \<Rightarrow> int \<Rightarrow> int \<Rightarrow> int \<times> int list" where
  "breakWord ops fData text startPos endPos =
     (let input_seq_len = int32 (endPos - startPos) in
      if input_seq_len > 2048 then (- 1, [])
      else
        (let n = nat input_seq_len;
             indices = map (\<lambda>i. mapping (model fData) (text (startPos + int i))) [0..<n];
             hu = c2_d1 (fForwardU fData);
             ifco = Array1D_new ops (4 * hu);
             c = Array1D_new ops hu;
             logp = Array1D_new ops 4;
             hBackward = Array2D_new ops n hu;
             fbRow = Array1D_new ops (2 * hu);
             (hBackward1, c1, ifco1) =
                backward_loop ops fData indices hu n n (hBackward, c, ifco);
             c2 = clear ops c1;
             (st, found) =
                forward_loop ops fData indices hBackward1 hu startPos n 0
                  ((fbRow, c2, ifco1, logp), [])
         in (0, found)))"

text \<open>The label decoded at position \<open>i\<close> of a call: the state of the forward pass
  before iteration \<open>i\<close> is \<open>forward_state\<close>, and the label is what the body of that
  iteration computes as \<open>current\<close>, the \<open>maxIndex\<close> of the logits \<open>logp\<close>.\<close>

primrec forward_state ::
  "'f float_ops \<Rightarrow> 'f LSTMData \<Rightarrow> nat list \<Rightarrow> 'f Array2D \<Rightarrow> nat \<Rightarrow>
   'f list \<times> 'f list \<times> 'f list \<times> 'f list \<Rightarrow> nat \<Rightarrow> 'f list \<times> 'f list \<times> 'f list \<times> 'f list" where
  "forward_state ops fData indices hBackward hu st0 0 = st0"
| "forward_state ops fData indices hBackward hu st0 (Suc i) =
     fst (forward_body ops fData indices hBackward hu i
            (forward_state ops fData indices hBackward hu st0 i))"

definition decoded_label ::
  "'f float_ops \<Rightarrow> 'f LSTMData \<Rightarrow> (int \<Rightarrow> lChar32) \<Rightarrow> int \<Rightarrow> int \<Rightarrow> nat \<Rightarrow> nat" where
  "decoded_label ops fData text startPos endPos i =
     (let n = nat (int32 (endPos - startPos));
          indices = map (\<lambda>i. mapping (model fData) (text (startPos + int i))) [0..<n];
          hu = c2_d1 (fForwardU fData);
          (hBackward1, c1, ifco1) =
             backward_loop ops fData indices hu n n
               (Array2D_new ops n hu, Array1D_new ops hu, Array1D_new ops (4 * hu));
          st0 = (Array1D_new ops (2 * hu), clear ops c1, ifco1, Array1D_new ops 4)
      in snd (forward_body ops fData indices hBackward1 hu i
                (forward_state ops fData indices hBackward1 hu st0 i)))"

text \<open>The variant the specification compares \<open>breakWord\<close> with: two separate
  zero-initialised cell-state buffers, \<open>cB\<close> for the backward pass and \<open>cF\<close> for the
  forward pass, and no \<open>clear\<close>.\<close>

definition breakWord_two_buffers ::
  "'f float_ops \<Rightarrow> 'f LSTMData \<Rightarrow> (int \<Rightarrow> lChar32) \<Rightarrow> int \<Rightarrow> int \<Rightarrow> int \<times> int list" where
  "breakWord_two_buffers ops fData text startPos endPos =
     (let input_seq_len = int32 (endPos - startPos) in
      if input_seq_len > 2048 then (- 1, [])
      else
        (let n = nat input_seq_len;
             indices = map (\<lambda>i. mapping (model fData) (text (startPos + int i))) [0..<n];
             hu = c2_d1 (fForwardU fData);
             ifco = Array1D_new ops (4 * hu);
             cB = Array1D_new ops hu;
             cF = Array1D_new ops hu;
             logp = Array1D_new ops 4;
             hBackward = Array2D_new ops n hu;
             fbRow = Array1D_new ops (2 * hu);
             (hBackward1, cB1, ifco1) =
                backward_loop ops fData indices hu n n (hBackward, cB, ifco);
             (st, found) =
                forward_loop ops fData indices hBackward1 hu startPos n 0
                  ((fbRow, cF, ifco1, logp), [])
         in (0, found)))"

text \<open>The reference equations of the LSTM step with a forget gate, over the real
  numbers: the pre-activation \<open>b + x\<cdot>W + h\<cdot>U\<close> at lane position \<open>k\<close>, the four lanes
  \<open>gI\<close>, \<open>gF\<close>, \<open>gC\<close>, \<open>gO\<close> of width \<open>hu\<close>, then the cell and the hidden update.\<close>

definition real_ops :: "real float_ops" where
  "real_ops = \<lparr>fzero = 0, fone = 1, fadd = (+), fmul = (*), fdiv = (/), fneg = uminus,
               fexp = exp, ftanh = tanh, fgt = (\<lambda>a b. a > b)\<rparr>"

definition sigma :: "real \<Rightarrow> real" where
  "sigma z = 1 / (1 + exp (- z))"

definition lstm_preact ::
  "real ConstArray2D \<Rightarrow> real ConstArray2D \<Rightarrow> real ReadArray1D \<Rightarrow> real ReadArray1D \<Rightarrow>
   real list \<Rightarrow> nat \<Rightarrow> real" where
  "lstm_preact W U b x h k =
     r1_get b k + (\<Sum>j<r1_d1 x. r1_get x j * ConstArray2D_get W j k)
                + (\<Sum>j<length h. h ! j * ConstArray2D_get U j k)"

definition lstm_step_ref ::
  "nat \<Rightarrow> real ConstArray2D \<Rightarrow> real ConstArray2D \<Rightarrow> real ReadArray1D \<Rightarrow> real ReadArray1D \<Rightarrow>
   real list \<Rightarrow> real list \<Rightarrow> real list \<times> real list \<times> real list" where
  "lstm_step_ref hu W U b x h c =
     (let gI = (\<lambda>k. sigma (lstm_preact W U b x h k));
          gF = (\<lambda>k. sigma (lstm_preact W U b x h (hu + k)));
          gC = (\<lambda>k. tanh (lstm_preact W U b x h (2 * hu + k)));
          gO = (\<lambda>k. sigma (lstm_preact W U b x h (3 * hu + k)));
          c' = map (\<lambda>k. c ! k * gF k + gI k * gC k) [0..<hu];
          h' = map (\<lambda>k. tanh (c' ! k) * gO k) [0..<hu]
      in (h', c', map gI [0..<hu] @ map gF [0..<hu] @ map gC [0..<hu] @ map gO [0..<hu]))"

section \<open>The dispatcher (linebreak\_sa.cpp)\<close>

text \<open>The four \<open>extern struct lstm_data\<close> blobs are a parameter; each singleton
  engine is the \<open>LSTMData\<close> built from its blob.\<close>

record 'f lstm_models =
  lstm_model_thai :: "'f lstm_data"
  lstm_model_lao :: "'f lstm_data"
  lstm_model_burmese :: "'f lstm_data"
  lstm_model_khmer :: "'f lstm_data"

definition get_break_engine_by_lang :: "'f lstm_models \<Rightarrow> SALang \<Rightarrow> 'f LSTMData" where
  "get_break_engine_by_lang M lang =
     (case lang of
        THAI \<Rightarrow> LSTMData_init (lstm_model_thai M)
      | LAO \<Rightarrow> LSTMData_init (lstm_model_lao M)
      | BURMESE \<Rightarrow> LSTMData_init (lstm_model_burmese M)
      | KHMER \<Rightarrow> LSTMData_init (lstm_model_khmer M)
      | UNK \<Rightarrow> LSTMData_init (lstm_model_thai M))"

text \<open>The state of \<open>BreakSALine\<close>: its two local variables, and three logs.
  \<open>calls\<close> lists the \<open>engine.breakWord\<close> invocations as (script, start, end, value
  returned); \<open>breaks\<close> lists the positions passed to \<open>foundBreak\<close>; \<open>chunks\<close> lists
  every chunk (script, start, end) the walk has closed, flushed to an engine or not. The
  logs are only appended to and never read.\<close>

record SA_state =
  lang_chunk_start :: int
  chunk_lang :: SALang
  chunks :: "(SALang \<times> int \<times> int) list"
  calls :: "(SALang \<times> int \<times> int \<times> int) list"
  breaks :: "int list"

text \<open>The statement \<open>engine.breakWord(text, start, end, foundBreak, callbackContext)\<close>
  on the engine of \<open>lang\<close>; the value it returns is logged and otherwise dropped.\<close>

definition flush ::
  "'f float_ops \<Rightarrow> 'f lstm_models \<Rightarrow> (int \<Rightarrow> lChar32) \<Rightarrow> SALang \<Rightarrow> int \<Rightarrow> int \<Rightarrow>
   SA_state \<Rightarrow> SA_state" where
  "flush ops M text lang start end' st =
     (case breakWord ops (get_break_engine_by_lang M lang) text start end' of
        (r, found) \<Rightarrow>
          st\<lparr>calls := calls st @ [(lang, start, end', r)], breaks := breaks st @ found\<rparr>)"

definition BreakSALine_body ::
  "'f float_ops \<Rightarrow> 'f lstm_models \<Rightarrow> (int \<Rightarrow> lChar32) \<Rightarrow> int \<Rightarrow> SA_state \<Rightarrow> SA_state" where
  "BreakSALine_body ops M text pos st =
     (let lang = classify_language (text pos) in
      if lang \<noteq> chunk_lang st then
        (let st1 = (if chunk_lang st \<noteq> UNK
                    then flush ops M text (chunk_lang st) (lang_chunk_start st) pos st
                    else st)
         in st1\<lparr>chunk_lang := lang, lang_chunk_start := pos,
                chunks := chunks st1 @ [(chunk_lang st, lang_chunk_start st, pos)]\<rparr>)
      else st)"

function BreakSALine_loop ::
  "'f float_ops \<Rightarrow> 'f lstm_models \<Rightarrow> (int \<Rightarrow> lChar32) \<Rightarrow> int \<Rightarrow> int \<Rightarrow> SA_state \<Rightarrow> SA_state" where
  "BreakSALine_loop ops M text rangeEnd pos st =
     (if pos < rangeEnd
      then BreakSALine_loop ops M text rangeEnd (pos + 1) (BreakSALine_body ops M text pos st)
      else st)"
  by pat_completeness auto
termination
  by (relation "measure (\<lambda>(ops, M, text, rangeEnd, pos, st). nat (rangeEnd - pos))") auto

declare BreakSALine_loop.simps [simp del]

text \<open>\<open>BreakSALine\<close> returns the literal 0 of its last statement, and the final state
  for its logs.\<close>

definition BreakSALine ::
  "'f float_ops \<Rightarrow> 'f lstm_models \<Rightarrow> (int \<Rightarrow> lChar32) \<Rightarrow> int \<Rightarrow> int \<Rightarrow> int \<times> SA_state" where
  "BreakSALine ops M text rangeStart rangeEnd =
     (let st0 = \<lparr>lang_chunk_start = rangeStart, chunk_lang = UNK,
                 chunks = [], calls = [], breaks = []\<rparr>;
          st1 = BreakSALine_loop ops M text rangeEnd rangeStart st0;
          st2 = (if lang_chunk_start st1 \<noteq> rangeEnd \<and> chunk_lang st1 \<noteq> UNK
                 then flush ops M text (chunk_lang st1) (lang_chunk_start st1) rangeEnd st1
                 else st1)
      in (0, st2\<lparr>chunks := chunks st2 @ [(chunk_lang st1, lang_chunk_start st1, rangeEnd)]\<rparr>))"

text \<open>Vocabulary for the logs: the positions of a chunk, whether the walk flushes it to
  an engine, and the engine invocation and the callbacks that flushing it produces.\<close>

definition chunk_positions :: "SALang \<times> int \<times> int \<Rightarrow> int list" where
  "chunk_positions ch = (case ch of (l, s, e) \<Rightarrow> [s..e - 1])"

definition chunk_flushed :: "SALang \<times> int \<times> int \<Rightarrow> bool" where
  "chunk_flushed ch = (fst ch \<noteq> UNK)"

definition chunk_call ::
  "'f float_ops \<Rightarrow> 'f lstm_models \<Rightarrow> (int \<Rightarrow> lChar32) \<Rightarrow> SALang \<times> int \<times> int \<Rightarrow>
   SALang \<times> int \<times> int \<times> int" where
  "chunk_call ops M text ch =
     (case ch of (l, s, e) \<Rightarrow>
        (l, s, e, fst (breakWord ops (get_break_engine_by_lang M l) text s e)))"

definition chunk_breaks ::
  "'f float_ops \<Rightarrow> 'f lstm_models \<Rightarrow> (int \<Rightarrow> lChar32) \<Rightarrow> SALang \<times> int \<times> int \<Rightarrow> int list" where
  "chunk_breaks ops M text ch =
     (case ch of (l, s, e) \<Rightarrow> snd (breakWord ops (get_break_engine_by_lang M l) text s e))"

text \<open>The loop invariant of the walk at position \<open>pos\<close>.\<close>

definition chunk_ok :: "(int \<Rightarrow> lChar32) \<Rightarrow> int \<Rightarrow> SALang \<times> int \<times> int \<Rightarrow> bool" where
  "chunk_ok text rangeStart ch =
     (case ch of (l, s, e) \<Rightarrow>
        (\<forall>p. s \<le> p \<and> p < e \<longrightarrow> classify_language (text p) = l) \<and>
        rangeStart \<le> s \<and> (s < e \<or> (l = UNK \<and> s = rangeStart \<and> e = rangeStart)) \<and>
        classify_language (text e) \<noteq> l)"

definition chunk_before :: "SALang \<times> int \<times> int \<Rightarrow> SALang \<times> int \<times> int \<Rightarrow> bool" where
  "chunk_before c d = (snd (snd c) \<le> fst (snd d))"

definition SA_inv ::
  "'f float_ops \<Rightarrow> 'f lstm_models \<Rightarrow> (int \<Rightarrow> lChar32) \<Rightarrow> int \<Rightarrow> int \<Rightarrow> SA_state \<Rightarrow> bool" where
  "SA_inv ops M text rangeStart pos st =
     (rangeStart \<le> lang_chunk_start st \<and> lang_chunk_start st \<le> pos \<and>
      (lang_chunk_start st < pos \<or>
         (chunk_lang st = UNK \<and> lang_chunk_start st = rangeStart \<and> pos = rangeStart)) \<and>
      (\<forall>p. lang_chunk_start st \<le> p \<and> p < pos \<longrightarrow> classify_language (text p) = chunk_lang st) \<and>
      concat (map chunk_positions (chunks st)) = [rangeStart..lang_chunk_start st - 1] \<and>
      (\<forall>ch\<in>set (chunks st). chunk_ok text rangeStart ch \<and> snd (snd ch) \<le> lang_chunk_start st) \<and>
      calls st = map (chunk_call ops M text) (filter chunk_flushed (chunks st)) \<and>
      breaks st = concat (map (chunk_breaks ops M text) (filter chunk_flushed (chunks st))) \<and>
      sorted_wrt (<) (breaks st) \<and>
      (\<forall>p\<in>set (breaks st). rangeStart < p \<and> p < lang_chunk_start st) \<and>
      sorted_wrt chunk_before (chunks st))"

section \<open>A small model and text for evaluation\<close>

text \<open>A one-unit model whose weights are all zero except for one entry of the output
  bias: with \<open>toy_model k\<close> the logits are 1 at label \<open>k\<close> and 0 elsewhere at every
  position. The text has a Latin letter, two Thai letters, one Lao letter and Latin
  letters again.\<close>

definition toy_model :: "nat \<Rightarrow> real lstm_data" where
  "toy_model k = \<lparr>num_index = 0, embedding_size = 1, hunits = 1, mapping = (\<lambda>_. 0),
                  matrices = (\<lambda>i. if i = 33 + k then 1 else 0)\<rparr>"

definition toy_models :: "real lstm_models" where
  "toy_models = \<lparr>lstm_model_thai = toy_model 0, lstm_model_lao = toy_model 1,
                  lstm_model_burmese = toy_model 2, lstm_model_khmer = toy_model 3\<rparr>"

definition example_text :: "int \<Rightarrow> lChar32" where
  "example_text p = (if p = 1 \<or> p = 2 then 0x0E01 else if p = 3 then 0x0E81 else 0x61)"

text \<open>A text of 2049 Thai letters followed by Lao letters.\<close>

definition long_text :: "int \<Rightarrow> lChar32" where
  "long_text p = (if p < 2049 then 0x0E01 else 0x0E81)"

section \<open>Properties of the classifier and of the array primitives\<close>

lemma maxIndex_loop_max:
  fixes xs ys :: "'a::linorder list"
  assumes "index < length ys" "i = length ys" "ys ! index = mx" "mx = Max (set ys)"
    "\<forall>j<index. ys ! j < mx"
  shows "maxIndex_loop (\<lambda>a b. a > b) xs i index mx < length (ys @ xs) \<and>
         (ys @ xs) ! maxIndex_loop (\<lambda>a b. a > b) xs i index mx = Max (set (ys @ xs)) \<and>
         (\<forall>j<maxIndex_loop (\<lambda>a b. a > b) xs i index mx. (ys @ xs) ! j < Max (set (ys @ xs)))"
  using assms
proof (induction xs arbitrary: ys i index mx)
  case Nil
  then show ?case by simp
next
  case (Cons x xs)
  have ne: "set ys \<noteq> {}" using Cons.prems(1) by auto
  have mx_step: "Max (set (ys @ [x])) = max x mx"
    unfolding Cons.prems(4) using ne by simp
  show ?case
  proof (cases "x > mx")
    case True
    have mx': "Max (set (ys @ [x])) = x"
      using mx_step True by simp
    have lt: "\<forall>j<i. (ys @ [x]) ! j < x"
    proof (intro allI impI)
      fix j assume "j < i"
      then have "ys ! j \<in> set ys" using Cons.prems(2) by simp
      then have "ys ! j \<le> mx" using Cons.prems(4) by simp
      then show "(ys @ [x]) ! j < x" using True \<open>j < i\<close> Cons.prems(2) by (simp add: nth_append)
    qed
    have "maxIndex_loop (\<lambda>a b. a > b) xs (i + 1) i x < length ((ys @ [x]) @ xs) \<and>
         ((ys @ [x]) @ xs) ! maxIndex_loop (\<lambda>a b. a > b) xs (i + 1) i x =
           Max (set ((ys @ [x]) @ xs)) \<and>
         (\<forall>j<maxIndex_loop (\<lambda>a b. a > b) xs (i + 1) i x.
             ((ys @ [x]) @ xs) ! j < Max (set ((ys @ [x]) @ xs)))"
      using Cons.prems(2) mx' lt by (intro Cons.IH) (simp_all add: nth_append)
    then show ?thesis using True by simp
  next
    case False
    have mx': "Max (set (ys @ [x])) = mx"
      using mx_step False by simp
    have "maxIndex_loop (\<lambda>a b. a > b) xs (i + 1) index mx < length ((ys @ [x]) @ xs) \<and>
         ((ys @ [x]) @ xs) ! maxIndex_loop (\<lambda>a b. a > b) xs (i + 1) index mx =
           Max (set ((ys @ [x]) @ xs)) \<and>
         (\<forall>j<maxIndex_loop (\<lambda>a b. a > b) xs (i + 1) index mx.
             ((ys @ [x]) @ xs) ! j < Max (set ((ys @ [x]) @ xs)))"
      using Cons.prems mx' by (intro Cons.IH) (simp_all add: nth_append)
    then show ?thesis using False by simp
  qed
qed

text \<open>Claim C8. On a non-empty array of totally ordered values \<open>maxIndex\<close> returns an
  index of the maximum, and every element at a lower index is strictly smaller, so among
  several maxima the lowest index is returned; on four equal logits the decoded label is
  index 0, \<open>BEGIN\<close>.\<close>

theorem maxIndex_lowest_maximum:
  fixes xs :: "'a::linorder list" and v :: 'a
  assumes "xs \<noteq> []"
  shows "maxIndex (\<lambda>a b. a > b) xs < length xs \<and>
         xs ! maxIndex (\<lambda>a b. a > b) xs = Max (set xs) \<and>
         (\<forall>j<maxIndex (\<lambda>a b. a > b) xs. xs ! j < Max (set xs)) \<and>
         maxIndex (\<lambda>a b. a > b) [v, v, v, v] = BEGIN"
proof -
  obtain x xs' where xs: "xs = x # xs'" using assms by (cases xs) auto
  have "maxIndex_loop (\<lambda>a b. a > b) xs' 1 0 x < length ([x] @ xs') \<and>
         ([x] @ xs') ! maxIndex_loop (\<lambda>a b. a > b) xs' 1 0 x = Max (set ([x] @ xs')) \<and>
         (\<forall>j<maxIndex_loop (\<lambda>a b. a > b) xs' 1 0 x. ([x] @ xs') ! j < Max (set ([x] @ xs')))"
    by (rule maxIndex_loop_max) simp_all
  moreover have "maxIndex (\<lambda>a b. a > b) [v, v, v, v] = BEGIN"
    by (simp add: maxIndex_def BEGIN_def)
  ultimately show ?thesis by (simp add: maxIndex_def xs)
qed

theorem maxIndex_lowest_maximum_witness:
  "[1, 7, 3, 7 :: int] \<noteq> [] \<and> maxIndex (\<lambda>a b. a > b) [1, 7, 3, 7 :: int] = 1 \<and>
   maxIndex (\<lambda>a b. a > b) [5, 5, 5, 5 :: int] = BEGIN"
  using maxIndex_lowest_maximum [of "[1, 7, 3, 7 :: int]" 5]
  by (simp add: maxIndex_def)

text \<open>Claim C9. The script of a code point is a function of that code point alone:
  \<open>THAI\<close> exactly on \<open>0x0E00 \<le> ch < 0x0E80\<close>, \<open>LAO\<close> exactly on
  \<open>0x0E80 \<le> ch < 0x0F00\<close>, \<open>BURMESE\<close> exactly on \<open>0x1000 \<le> ch < 0x10A0\<close>, \<open>KHMER\<close>
  exactly on \<open>0x1780 \<le> ch < 0x1800\<close>, and \<open>UNK\<close> exactly on every other value.\<close>

theorem classify_language_ranges:
  "(classify_language ch = THAI \<longleftrightarrow> 0x0E00 \<le> ch \<and> ch < 0x0E80) \<and>
   (classify_language ch = LAO \<longleftrightarrow> 0x0E80 \<le> ch \<and> ch < 0x0F00) \<and>
   (classify_language ch = BURMESE \<longleftrightarrow> 0x1000 \<le> ch \<and> ch < 0x10A0) \<and>
   (classify_language ch = KHMER \<longleftrightarrow> 0x1780 \<le> ch \<and> ch < 0x1800) \<and>
   (classify_language ch = UNK \<longleftrightarrow>
      \<not> (0x0E00 \<le> ch \<and> ch < 0x0E80) \<and> \<not> (0x0E80 \<le> ch \<and> ch < 0x0F00) \<and>
      \<not> (0x1000 \<le> ch \<and> ch < 0x10A0) \<and> \<not> (0x1780 \<le> ch \<and> ch < 0x1800))"
  unfolding classify_language_def
  by (auto simp: word_le_nat_alt word_less_nat_alt)

theorem classify_language_ranges_witness:
  "classify_language 0x0E00 = THAI \<and> classify_language 0x0E7F = THAI \<and>
   classify_language 0x0E80 = LAO \<and> classify_language 0x0EFF = LAO \<and>
   classify_language 0x1000 = BURMESE \<and> classify_language 0x109F = BURMESE \<and>
   classify_language 0x1780 = KHMER \<and> classify_language 0x17FF = KHMER \<and>
   classify_language 0x0DFF = UNK \<and> classify_language 0x0F00 = UNK \<and>
   classify_language 0x10A0 = UNK \<and> classify_language 0x1800 = UNK \<and>
   classify_language 0x61 = UNK"
  using classify_language_ranges[of "0x0E00"] classify_language_ranges[of "0x0E7F"]
    classify_language_ranges[of "0x0E80"] classify_language_ranges[of "0x0EFF"]
    classify_language_ranges[of "0x1000"] classify_language_ranges[of "0x109F"]
    classify_language_ranges[of "0x1780"] classify_language_ranges[of "0x17FF"]
    classify_language_ranges[of "0x0DFF"] classify_language_ranges[of "0x0F00"]
    classify_language_ranges[of "0x10A0"] classify_language_ranges[of "0x1800"]
    classify_language_ranges[of "0x61"]
  by simp

section \<open>The LSTM step\<close>

lemma fold_add_sum:
  "fold (\<lambda>j acc. acc + f j) [0..<n] (a::real) = a + (\<Sum>j<n. f j)"
  by (induction n) simp_all

lemma addDotProduct_real:
  "addDotProduct real_ops y a B =
     map (\<lambda>i. y ! i + (\<Sum>j<r1_d1 a. r1_get a j * ConstArray2D_get B j i)) [0..<length y]"
  by (simp add: addDotProduct_def real_ops_def fold_add_sum)

lemma nth_slice:
  "from + i < length xs \<Longrightarrow> i < sz \<Longrightarrow> slice xs from sz ! i = xs ! (from + i)"
  by (simp add: slice_def)

lemma length_slice: "from + sz \<le> length xs \<Longrightarrow> length (slice xs from sz) = sz"
  by (simp add: slice_def)

lemma length_on_slice:
  "from + sz \<le> length xs \<Longrightarrow> length (f (slice xs from sz)) = sz \<Longrightarrow>
   length (on_slice xs from sz f) = length xs"
  by (simp add: on_slice_def)

lemma nth_on_slice:
  assumes "from + sz \<le> length xs" "length (f (slice xs from sz)) = sz" "j < length xs"
  shows "on_slice xs from sz f ! j =
           (if from \<le> j \<and> j < from + sz then f (slice xs from sz) ! (j - from) else xs ! j)"
  using assms by (auto simp: on_slice_def nth_append)

lemma sigmoid_real:
  "length (sigmoid real_ops y) = length y"
  "i < length y \<Longrightarrow> sigmoid real_ops y ! i = sigma (y ! i)"
  by (simp_all add: sigmoid_def real_ops_def sigma_def)

lemma tanh_inplace_real:
  "length (tanh_inplace real_ops y) = length y"
  "i < length y \<Longrightarrow> tanh_inplace real_ops y ! i = tanh (y ! i)"
  by (simp_all add: tanh_inplace_def tanh_of_def real_ops_def Array1D_view_def)

lemma on_slice_sigmoid_length:
  assumes "from + sz \<le> length xs"
  shows "length (on_slice xs from sz (sigmoid real_ops)) = length xs"
  using assms by (simp add: length_on_slice sigmoid_real length_slice)

lemma on_slice_sigmoid_nth:
  assumes "from + sz \<le> length xs" "j < length xs"
  shows "on_slice xs from sz (sigmoid real_ops) ! j =
           (if from \<le> j \<and> j < from + sz then sigma (xs ! j) else xs ! j)"
proof -
  have len: "length (sigmoid real_ops (slice xs from sz)) = sz"
    using assms(1) by (simp add: sigmoid_real length_slice)
  show ?thesis
  proof (cases "from \<le> j \<and> j < from + sz")
    case True
    then have k: "j - from < sz" "from + (j - from) = j" by auto
    have "sigmoid real_ops (slice xs from sz) ! (j - from) = sigma (slice xs from sz ! (j - from))"
      using k(1) assms(1) by (simp add: sigmoid_real length_slice)
    also have "slice xs from sz ! (j - from) = xs ! j"
      using nth_slice[of "from" "j - from" xs sz] k assms(2) by simp
    finally show ?thesis
      using True assms len by (simp add: nth_on_slice[of "from" sz xs "sigmoid real_ops" j])
  next
    case False
    then show ?thesis
      using assms len by (auto simp: nth_on_slice[of "from" sz xs "sigmoid real_ops" j])
  qed
qed

lemma on_slice_tanh_length:
  assumes "from + sz \<le> length xs"
  shows "length (on_slice xs from sz (tanh_inplace real_ops)) = length xs"
  using assms by (simp add: length_on_slice tanh_inplace_real length_slice)

lemma on_slice_tanh_nth:
  assumes "from + sz \<le> length xs" "j < length xs"
  shows "on_slice xs from sz (tanh_inplace real_ops) ! j =
           (if from \<le> j \<and> j < from + sz then tanh (xs ! j) else xs ! j)"
proof -
  have len: "length (tanh_inplace real_ops (slice xs from sz)) = sz"
    using assms(1) by (simp add: tanh_inplace_real length_slice)
  show ?thesis
  proof (cases "from \<le> j \<and> j < from + sz")
    case True
    then have k: "j - from < sz" "from + (j - from) = j" by auto
    have "tanh_inplace real_ops (slice xs from sz) ! (j - from) = tanh (slice xs from sz ! (j - from))"
      using k(1) assms(1) by (simp add: tanh_inplace_real length_slice)
    also have "slice xs from sz ! (j - from) = xs ! j"
      using nth_slice[of "from" "j - from" xs sz] k assms(2) by simp
    finally show ?thesis
      using True assms len by (simp add: nth_on_slice[of "from" sz xs "tanh_inplace real_ops" j])
  next
    case False
    then show ?thesis
      using assms len by (auto simp: nth_on_slice[of "from" sz xs "tanh_inplace real_ops" j])
  qed
qed

text \<open>Claim C6. With \<open>h\<close> and \<open>c\<close> of length \<open>hu\<close> and the scratch array of length
  \<open>4 * hu\<close>, one call of \<open>compute\<close> is one step of the reference LSTM with a forget
  gate: the pre-activation is \<open>b + x\<cdot>W + h\<cdot>U\<close>, its four lanes of width \<open>hu\<close> are, in
  order, the input gate (sigmoid), the forget gate (sigmoid), the candidate (tanh) and
  the output gate (sigmoid), the cell becomes \<open>c \<odot> F + I \<odot> C\<close>, and the hidden state
  becomes \<open>tanh c \<odot> O\<close> of the new cell. The arithmetic is that of the real numbers.\<close>

theorem compute_lstm_step:
  assumes h: "length h = hu" and c: "length c = hu" and i: "length ifco = 4 * hu"
  shows "compute real_ops hu W U b x h c ifco = lstm_step_ref hu W U b x h c"
proof -
  define z where "z = lstm_preact W U b x h"
  define ifco1 where "ifco1 =
    addDotProduct real_ops (addDotProduct real_ops (assign ifco b) x W) (Array1D_view h) U"
  define ifco2 where "ifco2 = on_slice ifco1 (0 * hu) hu (sigmoid real_ops)"
  define ifco3 where "ifco3 = on_slice ifco2 (1 * hu) hu (sigmoid real_ops)"
  define ifco4 where "ifco4 = on_slice ifco3 (2 * hu) hu (tanh_inplace real_ops)"
  define ifco5 where "ifco5 = on_slice ifco4 (3 * hu) hu (sigmoid real_ops)"
  define c1 where "c1 = addHadamardProduct real_ops
                 (hadamardProduct real_ops c (Array1D_view (slice ifco5 hu hu)))
                 (Array1D_view (slice ifco5 0 hu)) (Array1D_view (slice ifco5 (2 * hu) hu))"
  define h1 where "h1 = hadamardProduct real_ops (tanh_of real_ops h (Array1D_view c1))
                 (Array1D_view (slice ifco5 (3 * hu) hu))"
  have cmp: "compute real_ops hu W U b x h c ifco = (h1, c1, ifco5)"
    unfolding compute_def Let_def h1_def c1_def ifco5_def ifco4_def ifco3_def ifco2_def ifco1_def
    by (rule refl)
  have l1: "length ifco1 = 4 * hu"
    by (simp add: ifco1_def addDotProduct_real assign_def i)
  have n1: "ifco1 ! k = z k" if "k < 4 * hu" for k
    using that
    by (simp add: ifco1_def addDotProduct_real assign_def Array1D_view_def z_def lstm_preact_def i)
  have l2: "length ifco2 = 4 * hu"
    unfolding ifco2_def using on_slice_sigmoid_length[of "0 * hu" hu ifco1] l1 by simp
  have n2: "ifco2 ! k = (if k < hu then sigma (z k) else z k)" if "k < 4 * hu" for k
    unfolding ifco2_def using on_slice_sigmoid_nth[of "0 * hu" hu ifco1 k] l1 n1 that by simp
  have l3: "length ifco3 = 4 * hu"
    unfolding ifco3_def using on_slice_sigmoid_length[of "1 * hu" hu ifco2] l2 by simp
  have n3: "ifco3 ! k = (if k < 2 * hu then sigma (z k) else z k)" if "k < 4 * hu" for k
    unfolding ifco3_def using on_slice_sigmoid_nth[of "1 * hu" hu ifco2 k] l2 n2 that by auto
  have l4: "length ifco4 = 4 * hu"
    unfolding ifco4_def using on_slice_tanh_length[of "2 * hu" hu ifco3] l3 by simp
  have n4: "ifco4 ! k = (if k < 2 * hu then sigma (z k) else if k < 3 * hu then tanh (z k) else z k)"
    if "k < 4 * hu" for k
    unfolding ifco4_def using on_slice_tanh_nth[of "2 * hu" hu ifco3 k] l3 n3 that by auto
  have l5: "length ifco5 = 4 * hu"
    unfolding ifco5_def using on_slice_sigmoid_length[of "3 * hu" hu ifco4] l4 by simp
  have n5: "ifco5 ! k = (if k < 2 * hu then sigma (z k) else if k < 3 * hu then tanh (z k)
                         else sigma (z k))"
    if "k < 4 * hu" for k
    unfolding ifco5_def using on_slice_sigmoid_nth[of "3 * hu" hu ifco4 k] l4 n4 that by auto
  have sI: "slice ifco5 0 hu ! k = sigma (z k)" if "k < hu" for k
    using that l5 n5[of k] by (simp add: nth_slice)
  have sF: "slice ifco5 hu hu ! k = sigma (z (hu + k))" if "k < hu" for k
    using that l5 n5[of "hu + k"] by (simp add: nth_slice)
  have sC: "slice ifco5 (2 * hu) hu ! k = tanh (z (2 * hu + k))" if "k < hu" for k
    using that l5 n5[of "2 * hu + k"] by (simp add: nth_slice)
  have sO: "slice ifco5 (3 * hu) hu ! k = sigma (z (3 * hu + k))" if "k < hu" for k
    using that l5 n5[of "3 * hu + k"] by (simp add: nth_slice)
  have c1_eq: "c1 = map (\<lambda>k. c ! k * sigma (z (hu + k)) + sigma (z k) * tanh (z (2 * hu + k))) [0..<hu]"
    unfolding c1_def
    by (simp add: addHadamardProduct_def hadamardProduct_def real_ops_def Array1D_view_def c
          sI sF sC)
  have h1_eq: "h1 = map (\<lambda>k. tanh (c1 ! k) * sigma (z (3 * hu + k))) [0..<hu]"
    unfolding h1_def
    by (simp add: hadamardProduct_def tanh_of_def real_ops_def Array1D_view_def h sO)
  have g_eq: "ifco5 = map (\<lambda>k. sigma (z k)) [0..<hu] @ map (\<lambda>k. sigma (z (hu + k))) [0..<hu] @
       map (\<lambda>k. tanh (z (2 * hu + k))) [0..<hu] @ map (\<lambda>k. sigma (z (3 * hu + k))) [0..<hu]"
  proof (rule nth_equalityI)
    show "length ifco5 = length (map (\<lambda>k. sigma (z k)) [0..<hu] @
       map (\<lambda>k. sigma (z (hu + k))) [0..<hu] @
       map (\<lambda>k. tanh (z (2 * hu + k))) [0..<hu] @ map (\<lambda>k. sigma (z (3 * hu + k))) [0..<hu])"
      using l5 by simp
  next
    fix k assume "k < length ifco5"
    then have k: "k < 4 * hu" using l5 by simp
    show "ifco5 ! k = (map (\<lambda>k. sigma (z k)) [0..<hu] @ map (\<lambda>k. sigma (z (hu + k))) [0..<hu] @
       map (\<lambda>k. tanh (z (2 * hu + k))) [0..<hu] @ map (\<lambda>k. sigma (z (3 * hu + k))) [0..<hu]) ! k"
      using k n5[OF k] by (auto simp: nth_append)
  qed
  show ?thesis
    unfolding cmp lstm_step_ref_def Let_def z_def[symmetric]
    using c1_eq h1_eq g_eq by simp
qed

theorem compute_lstm_step_witness:
  "length [0 :: real] = 1 \<and> length [2 :: real] = 1 \<and> length [0, 0, 0, 0 :: real] = 4 * 1 \<and>
   compute real_ops 1 (ConstArray2D_init (\<lambda>_. 0) 1 4) (ConstArray2D_init (\<lambda>_. 0) 1 4)
     (ConstArray1D (\<lambda>_. 0) 4) (ConstArray1D (\<lambda>_. 1) 1) [0] [2] [0, 0, 0, 0] =
   ([tanh 1 / 2], [1], [1 / 2, 1 / 2, 0, 1 / 2])"
  using compute_lstm_step[of "[0]" 1 "[2]" "[0, 0, 0, 0]" "ConstArray2D_init (\<lambda>_. 0) 1 4"
      "ConstArray2D_init (\<lambda>_. 0) 1 4" "ConstArray1D (\<lambda>_. 0) 4" "ConstArray1D (\<lambda>_. 1) 1"]
  by (simp add: lstm_step_ref_def lstm_preact_def sigma_def ConstArray2D_get_def
        ConstArray2D_init_def ConstArray1D_def Let_def)

section \<open>Properties of the engine\<close>

lemma int32_id: "- 2147483648 \<le> x \<Longrightarrow> x < 2147483648 \<Longrightarrow> int32 x = x"
  by (simp add: int32_def)

lemma int32_le: "0 \<le> x \<Longrightarrow> int32 x \<le> x"
proof (cases "x < 2147483648")
  case True
  assume "0 \<le> x"
  then show ?thesis using True by (simp add: int32_id)
next
  case False
  have "(x + 2147483648) mod 4294967296 < 4294967296" by simp
  then have "int32 x < 2147483648" by (simp add: int32_def)
  then show ?thesis using False by simp
qed

lemma breakWord_fst:
  "fst (breakWord ops fData text startPos endPos) =
     (if int32 (endPos - startPos) > 2048 then - 1 else 0)"
  by (simp add: breakWord_def Let_def split: prod.splits)

lemma forward_loop_found:
  "snd (forward_loop ops fData indices hB hu startPos n i
         (forward_state ops fData indices hB hu st0 i, found)) =
   found @ map (\<lambda>j. startPos + int j)
     (filter (\<lambda>j. j \<noteq> 0 \<and>
         (snd (forward_body ops fData indices hB hu j (forward_state ops fData indices hB hu st0 j)) = BEGIN \<or>
          snd (forward_body ops fData indices hB hu j (forward_state ops fData indices hB hu st0 j)) = SINGLE))
        [i..<n])"
  (is "snd (?loop i (?S i, found)) = found @ map ?f (filter ?P [i..<n])")
proof (induction "n - i" arbitrary: i found)
  case 0
  then show ?case by (subst forward_loop.simps) simp
next
  case (Suc d)
  then have lt: "i < n" and d: "d = n - (i + 1)" by simp_all
  define found1 where "found1 = (if ?P i then found @ [?f i] else found)"
  have "?loop i (?S i, found) = ?loop (i + 1) (?S (i + 1), found1)"
    by (subst forward_loop.simps) (auto simp: lt found1_def Let_def split: prod.splits)
  then have "snd (?loop i (?S i, found)) = found1 @ map ?f (filter ?P [i + 1..<n])"
    using Suc.hyps(1)[OF d] by simp
  moreover have "[i..<n] = i # [i + 1..<n]"
    using lt by (simp add: upt_conv_Cons)
  ultimately show ?case by (simp add: found1_def)
qed

lemma breakWord_found:
  assumes "int32 (endPos - startPos) \<le> 2048"
  shows "snd (breakWord ops fData text startPos endPos) =
     map (\<lambda>i. startPos + int i)
       (filter (\<lambda>i. i \<noteq> 0 \<and> (decoded_label ops fData text startPos endPos i = BEGIN \<or>
                               decoded_label ops fData text startPos endPos i = SINGLE))
          [0..<nat (int32 (endPos - startPos))])"
proof -
  define n where "n = nat (int32 (endPos - startPos))"
  define hu where "hu = c2_d1 (fForwardU fData)"
  define indices where "indices = map (\<lambda>i. mapping (model fData) (text (startPos + int i))) [0..<n]"
  obtain hB1 c1 ifco1 where bw: "backward_loop ops fData indices hu n n
      (Array2D_new ops n hu, Array1D_new ops hu, Array1D_new ops (4 * hu)) = (hB1, c1, ifco1)"
    by (metis prod_cases3)
  define st0 where "st0 = (Array1D_new ops (2 * hu), clear ops c1, ifco1, Array1D_new ops 4)"
  have bW: "snd (breakWord ops fData text startPos endPos) =
      snd (forward_loop ops fData indices hB1 hu startPos n 0 (st0, []))"
    using assms bw
    by (simp add: breakWord_def Let_def n_def hu_def indices_def st0_def split: prod.splits)
  have lab: "decoded_label ops fData text startPos endPos i =
      snd (forward_body ops fData indices hB1 hu i (forward_state ops fData indices hB1 hu st0 i))" for i
    using bw by (simp add: decoded_label_def Let_def n_def hu_def indices_def st0_def)
  show ?thesis
    unfolding bW lab n_def[symmetric]
    using forward_loop_found[of ops fData indices hB1 hu startPos n 0 st0 "[]"] by simp
qed

lemma breakWord_found_bounds:
  assumes "p \<in> set (snd (breakWord ops fData text startPos endPos))" and "startPos \<le> endPos"
  shows "startPos < p \<and> p < endPos"
proof (cases "int32 (endPos - startPos) \<le> 2048")
  case True
  have "int32 (endPos - startPos) \<le> endPos - startPos"
    using assms(2) by (simp add: int32_le)
  then show ?thesis
    using assms(1) unfolding breakWord_found[OF True] by auto
next
  case False
  then show ?thesis using assms(1) by (simp add: breakWord_def Let_def)
qed


lemma breakWord_found_sorted:
  "sorted_wrt (<) (snd (breakWord ops fData text startPos endPos))"
proof (cases "int32 (endPos - startPos) \<le> 2048")
  case True
  have "sorted_wrt (<) (filter P [0..<n])" for P :: "nat \<Rightarrow> bool" and n
    by (rule sorted_wrt_filter) simp
  then show ?thesis
    unfolding breakWord_found[OF True] by (simp add: sorted_wrt_map)
next
  case False
  then show ?thesis by (simp add: breakWord_def Let_def)
qed

section \<open>Evaluation of the small model\<close>

lemmas prim_defs = real_ops_def slice_def on_slice_def
  addDotProduct_def hadamardProduct_def addHadamardProduct_def assign_def tanh_of_def tanh_inplace_def
  sigmoid_def clear_def Array2D_row_def Array2D_on_row_def Array1D_view_def ConstArray1D_def
  ConstArray2D_init_def ConstArray2D_get_def ConstArray2D_row_def ptr_add_def
  Array1D_new_def Array2D_new_def

lemmas arr_defs = slice_def on_slice_def assign_def Array2D_row_def Array2D_on_row_def Array1D_view_def
  Array1D_new_def Array2D_new_def clear_def

lemma real_ops_simps:
  "fzero real_ops = 0" "fone real_ops = 1" "fadd real_ops a b = a + b" "fmul real_ops a b = a * b"
  "fgt real_ops a b = (a > b)"
  by (simp_all add: real_ops_def)

lemma toy_init: "LSTMData_init (toy_model k) =
   \<lparr>model = toy_model k,
    fEmbedding = \<lparr>c2_data = \<lambda>i. if i = 33 + k then 1 else 0, c2_d1 = Suc 0, c2_d2 = Suc 0\<rparr>,
    fForwardW = \<lparr>c2_data = \<lambda>i. if i = 32 + k then 1 else 0, c2_d1 = Suc 0, c2_d2 = 4\<rparr>,
    fForwardU = \<lparr>c2_data = \<lambda>i. if i = 28 + k then 1 else 0, c2_d1 = Suc 0, c2_d2 = 4\<rparr>,
    fForwardB = \<lparr>r1_d1 = 4, r1_get = \<lambda>i. if i = 24 + k then 1 else 0\<rparr>,
    fBackwardW = \<lparr>c2_data = \<lambda>i. if i = 20 + k then 1 else 0, c2_d1 = Suc 0, c2_d2 = 4\<rparr>,
    fBackwardU = \<lparr>c2_data = \<lambda>i. if i = 16 + k then 1 else 0, c2_d1 = Suc 0, c2_d2 = 4\<rparr>,
    fBackwardB = \<lparr>r1_d1 = 4, r1_get = \<lambda>i. if i = 12 + k then 1 else 0\<rparr>,
    fOutputW = \<lparr>c2_data = \<lambda>i. if i = 8 + k then 1 else 0, c2_d1 = 2, c2_d2 = 4\<rparr>,
    fOutputB = \<lparr>r1_d1 = 4, r1_get = \<lambda>i. if i = k then 1 else 0\<rparr>\<rparr>"
  by (simp add: LSTMData_init_def toy_model_def Let_def ConstArray2D_init_def ConstArray1D_def
        ptr_add_def)

lemma toy_hu: "c2_d1 (fForwardU (LSTMData_init (toy_model k))) = Suc 0"
  and toy_mapping: "mapping (model (LSTMData_init (toy_model k))) ch = 0"
  by (simp_all add: toy_init) (simp add: toy_model_def)

lemma toy_compute_forward:
  "compute real_ops (Suc 0) (fForwardW (LSTMData_init (toy_model k)))
     (fForwardU (LSTMData_init (toy_model k))) (fForwardB (LSTMData_init (toy_model k)))
     (ConstArray2D_row (fEmbedding (LSTMData_init (toy_model k))) 0) [0] [0] [a1, a2, a3, a4] =
   ([0], [0], [1 / 2, 1 / 2, 0, 1 / 2])"
  by (simp only: compute_def Let_def toy_init) (simp add: prim_defs)

lemma toy_compute_backward:
  "compute real_ops (Suc 0) (fBackwardW (LSTMData_init (toy_model k)))
     (fBackwardU (LSTMData_init (toy_model k))) (fBackwardB (LSTMData_init (toy_model k)))
     (ConstArray2D_row (fEmbedding (LSTMData_init (toy_model k))) 0) [0] [0] [a1, a2, a3, a4] =
   ([0], [0], [1 / 2, 1 / 2, 0, 1 / 2])"
  by (simp only: compute_def Let_def toy_init) (simp add: prim_defs)

lemma toy_backward_loop:
  "backward_loop real_ops (LSTMData_init (toy_model k)) (map (\<lambda>i. 0) [0..<2]) (Suc 0) 2 2
     (Array2D_new real_ops 2 (Suc 0), Array1D_new real_ops (Suc 0), Array1D_new real_ops 4) =
   (\<lparr>a2_data = [0, 0], a2_d1 = 2, a2_d2 = Suc 0\<rparr>, [0], [1 / 2, 1 / 2, 0, 1 / 2])"
  by (simp add: eval_nat_numeral Let_def toy_compute_backward arr_defs real_ops_simps)

lemma toy_forward_body:
  "forward_body real_ops (LSTMData_init (toy_model 0)) [0, 0]
     \<lparr>a2_data = [0, 0], a2_d1 = d, a2_d2 = Suc 0\<rparr> (Suc 0) 0
     ([0, 0], [0], [a1, a2, a3, a4], [b1, b2, b3, b4]) =
   (([0, 0], [0], [1 / 2, 1 / 2, 0, 1 / 2], [1, 0, 0, 0]), 0)"
  "forward_body real_ops (LSTMData_init (toy_model 0)) [0, 0]
     \<lparr>a2_data = [0, 0], a2_d1 = d, a2_d2 = Suc 0\<rparr> (Suc 0) (Suc 0)
     ([0, 0], [0], [a1, a2, a3, a4], [b1, b2, b3, b4]) =
   (([0, 0], [0], [1 / 2, 1 / 2, 0, 1 / 2], [1, 0, 0, 0]), 0)"
  by (simp add: forward_body_def Let_def arr_defs real_ops_simps toy_compute_forward,
      simp add: toy_init addDotProduct_def ConstArray2D_get_def arr_defs real_ops_simps
        maxIndex_def)+

lemma toy_forward_loop:
  "forward_loop real_ops (LSTMData_init (toy_model 0)) (map (\<lambda>i. 0) [0..<2])
     \<lparr>a2_data = [0, 0], a2_d1 = 2, a2_d2 = Suc 0\<rparr> (Suc 0) s 2 0
     ((Array1D_new real_ops 2, clear real_ops [0], [1 / 2, 1 / 2, 0, 1 / 2],
       Array1D_new real_ops 4), []) =
   (([0, 0], [0], [1 / 2, 1 / 2, 0, 1 / 2], [1, 0, 0, 0]), [s + 1])"
  by (simp add: forward_loop.simps toy_forward_body Array1D_new_def clear_def real_ops_simps
        eval_nat_numeral BEGIN_def)

lemma toy_breakWord:
  "breakWord real_ops (LSTMData_init (toy_model 0)) text s (s + 2) = (0, [s + 1])"
  by (simp add: breakWord_def int32_def Let_def toy_hu toy_mapping toy_backward_loop
        toy_forward_loop del: backward_loop.simps)

lemma toy_breakWord_thai:
  "breakWord real_ops (LSTMData_init (toy_model 0)) text 1 3 = (0, [2])"
  using toy_breakWord[of "text" 1] by simp

lemma breakWord_single:
  "breakWord ops fData text s (s + 1) = (0, [])"
proof -
  have "p \<notin> set (snd (breakWord ops fData text s (s + 1)))" for p
    using breakWord_found_bounds[of p ops fData "text" s "s + 1"] by auto
  then have "snd (breakWord ops fData text s (s + 1)) = []"
    by (cases "snd (breakWord ops fData text s (s + 1))") auto
  moreover have "fst (breakWord ops fData text s (s + 1)) = 0"
    by (simp add: breakWord_fst int32_def)
  ultimately show ?thesis by (cases "breakWord ops fData text s (s + 1)") simp
qed

lemma toy_breakWord_lao:
  "breakWord ops fData text 3 4 = (0, [])"
  using breakWord_single[of ops fData "text" 3] by simp

lemma example_run:
  "BreakSALine real_ops toy_models example_text 0 5 =
     (0, \<lparr>lang_chunk_start = 4, chunk_lang = UNK,
          chunks = [(UNK, 0, 1), (THAI, 1, 3), (LAO, 3, 4), (UNK, 4, 5)],
          calls = [(THAI, 1, 3, 0), (LAO, 3, 4, 0)], breaks = [2]\<rparr>)"
  by (simp add: BreakSALine_def Let_def BreakSALine_loop.simps BreakSALine_body_def flush_def
        classify_language_def example_text_def get_break_engine_by_lang_def toy_models_def
        toy_breakWord_thai toy_breakWord_lao)

section \<open>The claims about the engine\<close>

text \<open>Claim C2. With \<open>L = endPos - startPos\<close> as the code computes it, in
  \<open>int32_t\<close>, \<open>breakWord\<close> returns a nonzero value if and only if \<open>L > 2048\<close>, and
  when it does the callback is never invoked. Where the difference of the two positions
  is itself a 32-bit value, \<open>L\<close> is that difference: a call with \<open>L = 2049\<close> fails with
  no callback and a call with \<open>L = 2048\<close> returns 0.\<close>

theorem breakWord_length_bound:
  "(fst (breakWord ops fData text startPos endPos) \<noteq> 0 \<longleftrightarrow>
      2048 < int32 (endPos - startPos)) \<and>
   (fst (breakWord ops fData text startPos endPos) \<noteq> 0 \<longrightarrow>
      snd (breakWord ops fData text startPos endPos) = []) \<and>
   (- 2147483648 \<le> endPos - startPos \<and> endPos - startPos < 2147483648 \<longrightarrow>
      (fst (breakWord ops fData text startPos endPos) \<noteq> 0 \<longleftrightarrow> 2048 < endPos - startPos))"
proof -
  have "(fst (breakWord ops fData text startPos endPos) \<noteq> 0) =
      (2048 < int32 (endPos - startPos))"
    by (simp add: breakWord_fst)
  moreover have "fst (breakWord ops fData text startPos endPos) \<noteq> 0 \<longrightarrow>
      snd (breakWord ops fData text startPos endPos) = []"
    by (simp add: breakWord_def Let_def split: prod.splits)
  ultimately show ?thesis by (auto simp: int32_id)
qed

theorem breakWord_length_bound_witness:
  "fst (breakWord real_ops (LSTMData_init (toy_model 0)) example_text 0 2049) \<noteq> 0 \<and>
   snd (breakWord real_ops (LSTMData_init (toy_model 0)) example_text 0 2049) = [] \<and>
   fst (breakWord real_ops (LSTMData_init (toy_model 0)) example_text 0 2048) = 0 \<and>
   int32 (1 - (- 2147483648)) = - 2147483647 \<and>
   fst (breakWord real_ops (LSTMData_init (toy_model 0)) example_text (- 2147483648) 1) = 0"
  using breakWord_length_bound[of real_ops "LSTMData_init (toy_model 0)" example_text 0 2049]
    breakWord_length_bound[of real_ops "LSTMData_init (toy_model 0)" example_text 0 2048]
    breakWord_length_bound[of real_ops "LSTMData_init (toy_model 0)" example_text
      "- 2147483648" 1]
  by (simp add: int32_def)



lemma length_compute_c: "length (fst (snd (compute ops hu W U b x h c ifco))) = length c"
  by (simp add: compute_def Let_def addHadamardProduct_def hadamardProduct_def)

lemma length_backward_loop_c:
  "length (fst (snd (backward_loop ops fData indices hu n k (hB, c, ifco)))) = length c"
proof (induction k arbitrary: hB c ifco)
  case 0
  then show ?case by simp
next
  case (Suc k)
  obtain h1 c1 ifco1 where cmp: "compute ops hu (fBackwardW fData) (fBackwardU fData) (fBackwardB fData)
               (ConstArray2D_row (fEmbedding fData) (indices ! k))
               (if k \<noteq> n - 1 then assign (Array2D_row hB k) (Array1D_view (Array2D_row hB (k + 1)))
                else Array2D_row hB k) c ifco = (h1, c1, ifco1)"
    by (cases "compute ops hu (fBackwardW fData) (fBackwardU fData) (fBackwardB fData)
               (ConstArray2D_row (fEmbedding fData) (indices ! k))
               (if k \<noteq> n - 1 then assign (Array2D_row hB k) (Array1D_view (Array2D_row hB (k + 1)))
                else Array2D_row hB k) c ifco") auto
  have "length c1 = length c"
    using length_compute_c[of ops hu "fBackwardW fData" "fBackwardU fData" "fBackwardB fData"
         "ConstArray2D_row (fEmbedding fData) (indices ! k)" _ c ifco] cmp
    by (metis fst_conv snd_conv)
  then show ?case
    using Suc.IH[of _ c1 ifco1] cmp by (simp add: Let_def)
qed

text \<open>Claim C7. Reusing the one cell-state buffer \<open>c\<close> for both passes, zeroed at
  allocation and cleared again before the forward pass, gives the same return value and
  the same sequence of callbacks as two separate zero-initialised buffers, for every
  model, text and range.\<close>

theorem breakWord_cell_buffer_reuse:
  "breakWord ops fData text startPos endPos = breakWord_two_buffers ops fData text startPos endPos"
proof -
  define n where "n = nat (int32 (endPos - startPos))"
  define hu where "hu = c2_d1 (fForwardU fData)"
  define indices where "indices = map (\<lambda>i. mapping (model fData) (text (startPos + int i))) [0..<n]"
  obtain hB1 c1 ifco1 where bw: "backward_loop ops fData indices hu n n
      (Array2D_new ops n hu, Array1D_new ops hu, Array1D_new ops (4 * hu)) = (hB1, c1, ifco1)"
    by (metis prod_cases3)
  have "length c1 = hu"
    using length_backward_loop_c[of ops fData indices hu n n "Array2D_new ops n hu"
        "Array1D_new ops hu" "Array1D_new ops (4 * hu)"] bw
    by (simp add: Array1D_new_def)
  then have "clear ops c1 = Array1D_new ops hu"
    by (simp add: clear_def Array1D_new_def)
  then show ?thesis
    using bw by (simp add: breakWord_def breakWord_two_buffers_def Let_def n_def hu_def indices_def)
qed

theorem breakWord_cell_buffer_reuse_witness:
  "breakWord_two_buffers real_ops (LSTMData_init (toy_model 0)) example_text 1 3 = (0, [2])"
  using breakWord_cell_buffer_reuse[of real_ops "LSTMData_init (toy_model 0)" example_text 1 3]
  by (simp add: toy_breakWord_thai)

section \<open>Properties of the dispatcher\<close>

lemma upto_append: "(a::int) \<le> b \<Longrightarrow> b \<le> c + 1 \<Longrightarrow> [a..b - 1] @ [b..c] = [a..c]"
proof (cases "a = b")
  case True
  then show ?thesis by simp
next
  case False
  assume "a \<le> b" "b \<le> c + 1"
  then have "a \<le> b - 1" "b - 1 \<le> c" using False by simp_all
  then show ?thesis using upto_split2[of a "b - 1" c] by simp
qed

lemma flush_simps:
  "lang_chunk_start (flush ops M text l s e st) = lang_chunk_start st"
  "chunk_lang (flush ops M text l s e st) = chunk_lang st"
  "chunks (flush ops M text l s e st) = chunks st"
  "calls (flush ops M text l s e st) = calls st @ [chunk_call ops M text (l, s, e)]"
  "breaks (flush ops M text l s e st) = breaks st @ chunk_breaks ops M text (l, s, e)"
  by (simp_all add: flush_def chunk_call_def chunk_breaks_def split: prod.splits)

lemma chunk_breaks_bounds:
  "p \<in> set (chunk_breaks ops M text (l, s, e)) \<Longrightarrow> s \<le> e \<Longrightarrow> s < p \<and> p < e"
  unfolding chunk_breaks_def using breakWord_found_bounds by simp

lemma chunk_breaks_sorted: "sorted_wrt (<) (chunk_breaks ops M text ch)"
  by (simp add: chunk_breaks_def breakWord_found_sorted split: prod.splits)

lemma SA_inv_body_same:
  assumes "SA_inv ops M text rs pos st" "classify_language (text pos) = chunk_lang st"
  shows "SA_inv ops M text rs (pos + 1) (BreakSALine_body ops M text pos st)"
proof -
  have "BreakSALine_body ops M text pos st = st"
    using assms(2) by (simp add: BreakSALine_body_def)
  moreover have "\<forall>p. lang_chunk_start st \<le> p \<and> p < pos + 1 \<longrightarrow> classify_language (text p) = chunk_lang st"
    using assms by (auto simp: SA_inv_def less_le zless_add1_eq)
  ultimately show ?thesis
    using assms(1) unfolding SA_inv_def by auto
qed

lemma SA_inv_body_change:
  assumes inv: "SA_inv ops M text rs pos st" and ne: "classify_language (text pos) \<noteq> chunk_lang st"
  shows "SA_inv ops M text rs (pos + 1) (BreakSALine_body ops M text pos st)"
proof -
  define ch where "ch = (chunk_lang st, lang_chunk_start st, pos)"
  define st' where "st' = BreakSALine_body ops M text pos st"
  have f1: "lang_chunk_start st' = pos" "chunk_lang st' = classify_language (text pos)"
    "chunks st' = chunks st @ [ch]"
    using ne by (simp_all add: st'_def BreakSALine_body_def Let_def flush_simps ch_def)
  have f2: "calls st' = calls st @ map (chunk_call ops M text) (filter chunk_flushed [ch])"
    "breaks st' = breaks st @ concat (map (chunk_breaks ops M text) (filter chunk_flushed [ch]))"
    using ne by (simp_all add: st'_def BreakSALine_body_def Let_def flush_simps ch_def chunk_flushed_def)
  have i1: "rs \<le> lang_chunk_start st" "lang_chunk_start st \<le> pos"
    and i2: "lang_chunk_start st < pos \<or> (chunk_lang st = UNK \<and> lang_chunk_start st = rs \<and> pos = rs)"
    and i3: "\<forall>p. lang_chunk_start st \<le> p \<and> p < pos \<longrightarrow> classify_language (text p) = chunk_lang st"
    and i4: "concat (map chunk_positions (chunks st)) = [rs..lang_chunk_start st - 1]"
    and i5: "\<forall>c\<in>set (chunks st). chunk_ok text rs c \<and> snd (snd c) \<le> lang_chunk_start st"
    and i6: "calls st = map (chunk_call ops M text) (filter chunk_flushed (chunks st))"
    and i7: "breaks st = concat (map (chunk_breaks ops M text) (filter chunk_flushed (chunks st)))"
    and i8: "sorted_wrt (<) (breaks st)"
    and i9: "\<forall>p\<in>set (breaks st). rs < p \<and> p < lang_chunk_start st"
    and i10: "sorted_wrt chunk_before (chunks st)"
    using inv unfolding SA_inv_def by blast+
  have j1: "rs \<le> lang_chunk_start st'" "lang_chunk_start st' \<le> pos + 1"
    "lang_chunk_start st' < pos + 1 \<or>
       (chunk_lang st' = UNK \<and> lang_chunk_start st' = rs \<and> pos + 1 = rs)"
    "\<forall>p. lang_chunk_start st' \<le> p \<and> p < pos + 1 \<longrightarrow> classify_language (text p) = chunk_lang st'"
    using i1 by (auto simp: f1)
  have j4: "concat (map chunk_positions (chunks st')) = [rs..lang_chunk_start st' - 1]"
    using i1 i4 by (simp add: f1 ch_def chunk_positions_def upto_append)
  have ok: "chunk_ok text rs ch"
    using i1 i2 i3 ne by (auto simp: chunk_ok_def ch_def)
  have j5: "\<forall>c\<in>set (chunks st'). chunk_ok text rs c \<and> snd (snd c) \<le> lang_chunk_start st'"
    using i5 i1 ok by (auto simp: f1 ch_def)
  have j6: "calls st' = map (chunk_call ops M text) (filter chunk_flushed (chunks st'))"
    "breaks st' = concat (map (chunk_breaks ops M text) (filter chunk_flushed (chunks st')))"
    using i6 i7 by (simp_all add: f1 f2)
  have new: "\<forall>p\<in>set (concat (map (chunk_breaks ops M text) (filter chunk_flushed [ch]))).
      lang_chunk_start st < p \<and> p < pos"
    using chunk_breaks_bounds[of _ ops M "text" "chunk_lang st" "lang_chunk_start st" pos] i1
    by (auto simp: ch_def)
  have newsorted: "sorted_wrt (<) (concat (map (chunk_breaks ops M text) (filter chunk_flushed [ch])))"
    by (simp add: chunk_breaks_sorted)
  have j8: "sorted_wrt (<) (breaks st')"
    unfolding f2 sorted_wrt_append using i8 i9 new newsorted by fastforce
  have j9: "\<forall>p\<in>set (breaks st'). rs < p \<and> p < lang_chunk_start st'"
    unfolding f2 f1 using i9 i1 new by fastforce
  have j10: "sorted_wrt chunk_before (chunks st')"
    unfolding f1 sorted_wrt_append using i10 i5 by (auto simp: chunk_before_def ch_def)
  show ?thesis
    unfolding SA_inv_def st'_def[symmetric]
    using j1 j4 j5 j6 j8 j9 j10 by blast
qed

lemma SA_inv_body:
  "SA_inv ops M text rs pos st \<Longrightarrow> SA_inv ops M text rs (pos + 1) (BreakSALine_body ops M text pos st)"
  using SA_inv_body_same SA_inv_body_change by blast

lemma SA_inv_loop:
  "SA_inv ops M text rs pos st \<Longrightarrow> pos \<le> rangeEnd \<Longrightarrow>
   SA_inv ops M text rs rangeEnd (BreakSALine_loop ops M text rangeEnd pos st)"
proof (induction ops M "text" rangeEnd pos st rule: BreakSALine_loop.induct)
  case (1 ops M t rangeEnd pos st)
  show ?case
  proof (cases "pos < rangeEnd")
    case True
    then show ?thesis
      using "1.IH"[OF True] "1.prems" SA_inv_body[of ops M t rs pos st]
      by (subst BreakSALine_loop.simps) simp
  next
    case False
    then have "pos = rangeEnd" using "1.prems" by simp
    then show ?thesis using "1.prems" by (subst BreakSALine_loop.simps) simp
  qed
qed

lemma SA_inv_init:
  "SA_inv ops M text rs rs \<lparr>lang_chunk_start = rs, chunk_lang = UNK, chunks = [], calls = [], breaks = []\<rparr>"
  by (auto simp: SA_inv_def)

text \<open>The state after the walk and the last flush, for a range that is not reversed.\<close>

lemma BreakSALine_facts:
  fixes ops :: "'f float_ops" and M :: "'f lstm_models" and tx :: "int \<Rightarrow> lChar32"
  assumes "rangeStart \<le> rangeEnd"
  defines "st' \<equiv> snd (BreakSALine ops M tx rangeStart rangeEnd)"
  shows "concat (map chunk_positions (chunks st')) = [rangeStart..rangeEnd - 1]"
    and "\<forall>c\<in>set (chunks st'). case c of (l, s, e) \<Rightarrow>
           (\<forall>p. s \<le> p \<and> p < e \<longrightarrow> classify_language (tx p) = l) \<and>
           rangeStart \<le> s \<and> e \<le> rangeEnd \<and>
           (s < e \<or> (l = UNK \<and> s = rangeStart \<and> e = rangeStart)) \<and>
           (e < rangeEnd \<longrightarrow> classify_language (tx e) \<noteq> l)"
    and "calls st' = map (chunk_call ops M tx) (filter chunk_flushed (chunks st'))"
    and "breaks st' = concat (map (chunk_breaks ops M tx) (filter chunk_flushed (chunks st')))"
    and "sorted_wrt (<) (breaks st')"
    and "\<forall>p\<in>set (breaks st'). rangeStart < p \<and> p < rangeEnd"
    and "sorted_wrt chunk_before (chunks st')"
proof -
  define st1 where "st1 = BreakSALine_loop ops M tx rangeEnd rangeStart
     \<lparr>lang_chunk_start = rangeStart, chunk_lang = UNK, chunks = [], calls = [], breaks = []\<rparr>"
  define ch where "ch = (chunk_lang st1, lang_chunk_start st1, rangeEnd)"
  have inv: "SA_inv ops M tx rangeStart rangeEnd st1"
    unfolding st1_def using SA_inv_loop[OF SA_inv_init assms(1)] .
  have i1: "rangeStart \<le> lang_chunk_start st1" "lang_chunk_start st1 \<le> rangeEnd"
    and i2: "lang_chunk_start st1 < rangeEnd \<or>
       (chunk_lang st1 = UNK \<and> lang_chunk_start st1 = rangeStart \<and> rangeEnd = rangeStart)"
    and i3: "\<forall>p. lang_chunk_start st1 \<le> p \<and> p < rangeEnd \<longrightarrow> classify_language (tx p) = chunk_lang st1"
    and i4: "concat (map chunk_positions (chunks st1)) = [rangeStart..lang_chunk_start st1 - 1]"
    and i5: "\<forall>c\<in>set (chunks st1). chunk_ok tx rangeStart c \<and> snd (snd c) \<le> lang_chunk_start st1"
    and i6: "calls st1 = map (chunk_call ops M tx) (filter chunk_flushed (chunks st1))"
    and i7: "breaks st1 = concat (map (chunk_breaks ops M tx) (filter chunk_flushed (chunks st1)))"
    and i8: "sorted_wrt (<) (breaks st1)"
    and i9: "\<forall>p\<in>set (breaks st1). rangeStart < p \<and> p < lang_chunk_start st1"
    and i10: "sorted_wrt chunk_before (chunks st1)"
    using inv unfolding SA_inv_def by blast+
  have fl: "(lang_chunk_start st1 \<noteq> rangeEnd \<and> chunk_lang st1 \<noteq> UNK) = chunk_flushed ch"
    using i2 by (auto simp: chunk_flushed_def ch_def)
  have f1: "chunks st' = chunks st1 @ [ch]"
    "calls st' = calls st1 @ map (chunk_call ops M tx) (filter chunk_flushed [ch])"
    "breaks st' = breaks st1 @ concat (map (chunk_breaks ops M tx) (filter chunk_flushed [ch]))"
    unfolding st'_def BreakSALine_def Let_def st1_def[symmetric] fl
    by (simp_all add: flush_simps ch_def)
  show "concat (map chunk_positions (chunks st')) = [rangeStart..rangeEnd - 1]"
    using i1 i4 by (simp add: f1 ch_def chunk_positions_def upto_append)
  have old: "case c of (l, s, e) \<Rightarrow>
           (\<forall>p. s \<le> p \<and> p < e \<longrightarrow> classify_language (tx p) = l) \<and>
           rangeStart \<le> s \<and> e \<le> rangeEnd \<and>
           (s < e \<or> (l = UNK \<and> s = rangeStart \<and> e = rangeStart)) \<and>
           (e < rangeEnd \<longrightarrow> classify_language (tx e) \<noteq> l)" if "c \<in> set (chunks st1)" for c
    using i5 i1 that by (fastforce simp: chunk_ok_def)
  have last: "case ch of (l, s, e) \<Rightarrow>
           (\<forall>p. s \<le> p \<and> p < e \<longrightarrow> classify_language (tx p) = l) \<and>
           rangeStart \<le> s \<and> e \<le> rangeEnd \<and>
           (s < e \<or> (l = UNK \<and> s = rangeStart \<and> e = rangeStart)) \<and>
           (e < rangeEnd \<longrightarrow> classify_language (tx e) \<noteq> l)"
    using i1 i2 i3 by (auto simp: ch_def)
  show "\<forall>c\<in>set (chunks st'). case c of (l, s, e) \<Rightarrow>
           (\<forall>p. s \<le> p \<and> p < e \<longrightarrow> classify_language (tx p) = l) \<and>
           rangeStart \<le> s \<and> e \<le> rangeEnd \<and>
           (s < e \<or> (l = UNK \<and> s = rangeStart \<and> e = rangeStart)) \<and>
           (e < rangeEnd \<longrightarrow> classify_language (tx e) \<noteq> l)"
    unfolding f1 using old last by auto
  show "calls st' = map (chunk_call ops M tx) (filter chunk_flushed (chunks st'))"
    and "breaks st' = concat (map (chunk_breaks ops M tx) (filter chunk_flushed (chunks st')))"
    using i6 i7 by (simp_all add: f1)
  have new: "\<forall>p\<in>set (concat (map (chunk_breaks ops M tx) (filter chunk_flushed [ch]))).
      lang_chunk_start st1 < p \<and> p < rangeEnd"
    using chunk_breaks_bounds[of _ ops M tx "chunk_lang st1" "lang_chunk_start st1" rangeEnd] i1
    by (auto simp: ch_def)
  have newsorted: "sorted_wrt (<) (concat (map (chunk_breaks ops M tx) (filter chunk_flushed [ch])))"
    by (simp add: chunk_breaks_sorted)
  show "sorted_wrt (<) (breaks st')"
    unfolding f1 sorted_wrt_append using i8 i9 new newsorted by fastforce
  show "\<forall>p\<in>set (breaks st'). rangeStart < p \<and> p < rangeEnd"
    unfolding f1 using i9 i1 new by fastforce
  show "sorted_wrt chunk_before (chunks st')"
    unfolding f1 sorted_wrt_append using i10 i5 by (auto simp: chunk_before_def ch_def)
qed

lemma BreakSALine_reversed:
  assumes "rangeEnd < rangeStart"
  shows "snd (BreakSALine ops M text rangeStart rangeEnd) =
     \<lparr>lang_chunk_start = rangeStart, chunk_lang = UNK, chunks = [(UNK, rangeStart, rangeEnd)],
      calls = [], breaks = []\<rparr>"
  using assms by (simp add: BreakSALine_def Let_def BreakSALine_loop.simps)

lemma breaks_in_flushed_chunk:
  assumes "breaks st = concat (map (chunk_breaks ops M tx) (filter chunk_flushed (chunks st)))"
    and "\<forall>c\<in>set (chunks st). fst (snd c) \<le> snd (snd c) \<or> fst c = UNK"
    and "p \<in> set (breaks st)"
  shows "\<exists>l s e. (l, s, e) \<in> set (chunks st) \<and> l \<noteq> UNK \<and> s < p \<and> p < e"
proof -
  obtain c where c: "c \<in> set (chunks st)" "chunk_flushed c" "p \<in> set (chunk_breaks ops M tx c)"
    using assms(1,3) by auto
  obtain l s e where lse: "c = (l, s, e)" by (cases c) auto
  have l: "l \<noteq> UNK" using c(2) by (simp add: chunk_flushed_def lse)
  then have "s \<le> e" using assms(2) c(1) lse by fastforce
  then have "s < p \<and> p < e" using chunk_breaks_bounds c(3) unfolding lse by blast
  then show ?thesis using c(1) lse l by blast
qed

lemma BreakSALine_loop_run:
  assumes "\<forall>p. pos \<le> p \<and> p < e \<longrightarrow> classify_language (text p) = chunk_lang st"
    and "pos \<le> e" and "e \<le> rangeEnd"
  shows "BreakSALine_loop ops M text rangeEnd pos st = BreakSALine_loop ops M text rangeEnd e st"
  using assms
proof (induction "nat (e - pos)" arbitrary: pos)
  case 0
  then show ?case by simp
next
  case (Suc d)
  then have lt: "pos < e" and d: "d = nat (e - (pos + 1))" by simp_all
  have same: "BreakSALine_body ops M text pos st = st"
    using Suc.prems(1) lt by (simp add: BreakSALine_body_def)
  have "BreakSALine_loop ops M text rangeEnd pos st =
        BreakSALine_loop ops M text rangeEnd (pos + 1) st"
    using lt Suc.prems(3) same by (subst BreakSALine_loop.simps) simp
  also have "\<dots> = BreakSALine_loop ops M text rangeEnd e st"
    using Suc.hyps(1)[OF d] Suc.prems lt by simp
  finally show ?case .
qed

section \<open>The claims about the dispatcher\<close>

text \<open>Claim C3. The chunks the walk forms partition the range: the concatenation of
  their positions, in the order they are formed, is exactly the list of positions from
  \<open>rangeStart\<close> to \<open>rangeEnd - 1\<close>, so no position is in two chunks; every position of
  a chunk classifies to the script of the chunk (so no \<open>UNK\<close> position lies in a chunk
  of another script); the chunks handed to an engine are exactly those whose script is
  not \<open>UNK\<close>; and no callback position lies inside an \<open>UNK\<close> chunk or on one of its two
  boundaries.\<close>

theorem BreakSALine_chunk_partition:
  fixes ops :: "'f float_ops" and M :: "'f lstm_models" and tx :: "int \<Rightarrow> lChar32"
    and rangeStart rangeEnd :: int
  defines "st \<equiv> snd (BreakSALine ops M tx rangeStart rangeEnd)"
  shows "concat (map chunk_positions (chunks st)) = [rangeStart..rangeEnd - 1] \<and>
     distinct (concat (map chunk_positions (chunks st))) \<and>
     (\<forall>(l, s, e) \<in> set (chunks st). \<forall>p \<in> set (chunk_positions (l, s, e)).
         classify_language (tx p) = l) \<and>
     map (\<lambda>(l, s, e, r). (l, s, e)) (calls st) = filter (\<lambda>(l, s, e). l \<noteq> UNK) (chunks st) \<and>
     (\<forall>(l, s, e) \<in> set (chunks st). l = UNK \<longrightarrow> (\<forall>p \<in> set (breaks st). \<not> (s \<le> p \<and> p \<le> e)))"
proof (cases "rangeStart \<le> rangeEnd")
  case True
  note F = BreakSALine_facts[OF True, of ops M tx, folded st_def]
  have parts: "concat (map chunk_positions (chunks st)) = [rangeStart..rangeEnd - 1]"
    by (rule F(1))
  have hom: "classify_language (tx p) = l"
    if "(l, s, e) \<in> set (chunks st)" "s \<le> p" "p < e" for l s e p
    using F(2) that by fastforce
  have fl: "filter chunk_flushed (chunks st) = filter (\<lambda>(l, s, e). l \<noteq> UNK) (chunks st)"
    by (rule filter_cong) (auto simp: chunk_flushed_def)
  have cl: "map (\<lambda>(l, s, e, r). (l, s, e)) (calls st) = filter (\<lambda>(l, s, e). l \<noteq> UNK) (chunks st)"
    unfolding F(3) fl by (simp add: chunk_call_def comp_def case_prod_beta)
  have nb: "\<not> (s \<le> p \<and> p \<le> e)"
    if u: "(UNK, s, e) \<in> set (chunks st)" and p: "p \<in> set (breaks st)" for s e p
  proof
    assume in_u: "s \<le> p \<and> p \<le> e"
    have ord: "\<forall>c\<in>set (chunks st). fst (snd c) \<le> snd (snd c) \<or> fst c = UNK"
      using F(2) by fastforce
    obtain l' s' e' where c': "(l', s', e') \<in> set (chunks st)" "l' \<noteq> UNK" "s' < p" "p < e'"
      using breaks_in_flushed_chunk[OF F(4) ord p] by blast
    have at_p: "classify_language (tx p) = l'" using hom[OF c'(1)] c' by simp
    have before_p: "classify_language (tx (p - 1)) = l'" using hom[OF c'(1)] c' by simp
    have "s < e \<or> (s = rangeStart \<and> e = rangeStart)" using F(2) u by fastforce
    moreover have "rangeStart < p" using F(6) p by blast
    ultimately have "s < e" using in_u by auto
    show False
    proof (cases "p < e")
      case True
      then show False using hom[OF u] in_u at_p c'(2) by auto
    next
      case False
      then have "s \<le> p - 1" "p - 1 < e" using in_u \<open>s < e\<close> by auto
      then show False using hom[OF u] before_p c'(2) by auto
    qed
  qed
  show ?thesis
    using parts hom cl nb by (auto simp: chunk_positions_def)
next
  case False
  then have "rangeEnd < rangeStart" by simp
  then have "st = \<lparr>lang_chunk_start = rangeStart, chunk_lang = UNK,
      chunks = [(UNK, rangeStart, rangeEnd)], calls = [], breaks = []\<rparr>"
    unfolding st_def by (rule BreakSALine_reversed)
  then show ?thesis using False by (simp add: chunk_positions_def)
qed

theorem BreakSALine_chunk_partition_witness:
  "chunks (snd (BreakSALine real_ops toy_models example_text 0 5)) =
     [(UNK, 0, 1), (THAI, 1, 3), (LAO, 3, 4), (UNK, 4, 5)] \<and>
   concat (map chunk_positions (chunks (snd (BreakSALine real_ops toy_models example_text 0 5)))) =
     [0, 1, 2, 3, 4] \<and>
   classify_language (example_text 0) = UNK \<and> classify_language (example_text 1) = THAI \<and>
   map (\<lambda>(l, s, e, r). (l, s, e)) (calls (snd (BreakSALine real_ops toy_models example_text 0 5))) =
     [(THAI, 1, 3), (LAO, 3, 4)] \<and>
   breaks (snd (BreakSALine real_ops toy_models example_text 0 5)) = [2] \<and>
   \<not> (0 \<le> (2::int) \<and> (2::int) \<le> 1) \<and> \<not> (4 \<le> (2::int) \<and> (2::int) \<le> 5)"
proof -
  have ev: "chunks (snd (BreakSALine real_ops toy_models example_text 0 5)) =
          [(UNK, 0, 1), (THAI, 1, 3), (LAO, 3, 4), (UNK, 4, 5)]"
    "breaks (snd (BreakSALine real_ops toy_models example_text 0 5)) = [2]"
    by (simp_all add: example_run)
  note T = BreakSALine_chunk_partition[of real_ops toy_models example_text 0 5]
  have "concat (map chunk_positions
           (chunks (snd (BreakSALine real_ops toy_models example_text 0 5)))) = [0, 1, 2, 3, 4]"
    using T by (simp add: upto.simps[of 0 4] upto.simps[of 1 4] upto.simps[of 2 4] upto.simps[of 3 4])
  moreover have "map (\<lambda>(l, s, e, r). (l, s, e))
           (calls (snd (BreakSALine real_ops toy_models example_text 0 5))) =
         [(THAI, 1, 3), (LAO, 3, 4)]"
    using T unfolding ev by simp
  moreover have "classify_language (example_text 0) = UNK \<and> classify_language (example_text 1) = THAI"
    using T unfolding ev by (simp add: chunk_positions_def)
  moreover have "\<not> (0 \<le> (2::int) \<and> (2::int) \<le> 1) \<and> \<not> (4 \<le> (2::int) \<and> (2::int) \<le> 5)"
    using T unfolding ev by simp
  ultimately show ?thesis using ev by simp
qed

text \<open>Claim C5. Within one call of \<open>BreakSALine\<close> the positions passed to the callback
  are strictly increasing and lie between \<open>rangeStart + 1\<close> and \<open>rangeEnd - 1\<close>; they
  are the callbacks of the engine invocations concatenated in the order of the
  invocations, and the invocations are made in source order (each chunk ends before the
  next one starts).\<close>

theorem BreakSALine_breaks_increasing:
  fixes ops :: "'f float_ops" and M :: "'f lstm_models" and tx :: "int \<Rightarrow> lChar32"
    and rangeStart rangeEnd :: int
  defines "st \<equiv> snd (BreakSALine ops M tx rangeStart rangeEnd)"
  shows "sorted_wrt (<) (breaks st) \<and>
     (\<forall>p \<in> set (breaks st). rangeStart + 1 \<le> p \<and> p \<le> rangeEnd - 1) \<and>
     breaks st = concat (map (\<lambda>(l, s, e, r).
                    snd (breakWord ops (get_break_engine_by_lang M l) tx s e)) (calls st)) \<and>
     sorted_wrt (\<lambda>(l, s, e, r) (l', s', e', r'). e \<le> s') (calls st)"
proof (cases "rangeStart \<le> rangeEnd")
  case True
  note F = BreakSALine_facts[OF True, of ops M tx, folded st_def]
  have b: "breaks st = concat (map (\<lambda>(l, s, e, r).
                    snd (breakWord ops (get_break_engine_by_lang M l) tx s e)) (calls st))"
  proof -
    have "(\<lambda>(l, s, e, r). snd (breakWord ops (get_break_engine_by_lang M l) tx s e)) \<circ>
            chunk_call ops M tx = chunk_breaks ops M tx"
      by (rule ext) (simp add: chunk_call_def chunk_breaks_def case_prod_beta)
    then show ?thesis unfolding F(3) unfolding F(4) by simp
  qed
  have cb: "chunk_before = (\<lambda>x y. snd (snd x) \<le> fst (snd y))"
    by (intro ext) (simp add: chunk_before_def)
  have "sorted_wrt chunk_before (filter chunk_flushed (chunks st))"
    using F(7) by (rule sorted_wrt_filter)
  then have c: "sorted_wrt (\<lambda>(l, s, e, r) (l', s', e', r'). e \<le> s') (calls st)"
    unfolding F(3) cb by (simp add: sorted_wrt_map chunk_call_def case_prod_beta)
  have bnd: "\<forall>p \<in> set (breaks st). rangeStart + 1 \<le> p \<and> p \<le> rangeEnd - 1"
    using F(6) by fastforce
  show ?thesis using F(5) bnd b c by (intro conjI)
next
  case False
  then have "rangeEnd < rangeStart" by simp
  then have "st = \<lparr>lang_chunk_start = rangeStart, chunk_lang = UNK,
      chunks = [(UNK, rangeStart, rangeEnd)], calls = [], breaks = []\<rparr>"
    unfolding st_def by (rule BreakSALine_reversed)
  then show ?thesis by simp
qed

theorem BreakSALine_breaks_increasing_witness:
  "breaks (snd (BreakSALine real_ops toy_models example_text 0 5)) = [2] \<and>
   sorted_wrt (<) (breaks (snd (BreakSALine real_ops toy_models example_text 0 5))) \<and>
   0 + 1 \<le> (2::int) \<and> (2::int) \<le> 5 - 1 \<and>
   calls (snd (BreakSALine real_ops toy_models example_text 0 5)) =
     [(THAI, 1, 3, 0), (LAO, 3, 4, 0)]"
proof -
  have ev: "breaks (snd (BreakSALine real_ops toy_models example_text 0 5)) = [2]"
    "calls (snd (BreakSALine real_ops toy_models example_text 0 5)) =
     [(THAI, 1, 3, 0), (LAO, 3, 4, 0)]"
    by (simp_all add: example_run)
  note T = BreakSALine_breaks_increasing[of real_ops toy_models example_text 0 5]
  have "sorted_wrt (<) (breaks (snd (BreakSALine real_ops toy_models example_text 0 5)))"
    using T by blast
  moreover have "0 + 1 \<le> (2::int) \<and> (2::int) \<le> 5 - 1"
    using T unfolding ev by simp
  ultimately show ?thesis using ev by simp
qed

text \<open>Claim C10. Every engine invocation made by \<open>BreakSALine\<close> is on a non-empty
  chunk inside the range, whose script \<open>l\<close> is not \<open>UNK\<close>; the engine invoked is the
  one built from the model of that script (the Thai model for a Thai chunk, the Lao
  model for a Lao chunk, and so on); every position of the chunk classifies to \<open>l\<close>,
  and the position at the end of the chunk, if it is inside the range, classifies to a
  different script.\<close>

theorem BreakSALine_engine_calls:
  fixes ops :: "'f float_ops" and M :: "'f lstm_models" and tx :: "int \<Rightarrow> lChar32"
    and rangeStart rangeEnd :: int
  defines "st \<equiv> snd (BreakSALine ops M tx rangeStart rangeEnd)"
  shows "\<forall>(l, s, e, r) \<in> set (calls st).
           s < e \<and> l \<noteq> UNK \<and> rangeStart \<le> s \<and> e \<le> rangeEnd \<and>
           (\<forall>p. s \<le> p \<and> p < e \<longrightarrow> classify_language (tx p) = l) \<and>
           (e < rangeEnd \<longrightarrow> classify_language (tx e) \<noteq> l) \<and>
           r = fst (breakWord ops (get_break_engine_by_lang M l) tx s e) \<and>
           (l = THAI \<longrightarrow> get_break_engine_by_lang M l = LSTMData_init (lstm_model_thai M) \<and>
                          model (get_break_engine_by_lang M l) = lstm_model_thai M) \<and>
           (l = LAO \<longrightarrow> get_break_engine_by_lang M l = LSTMData_init (lstm_model_lao M) \<and>
                         model (get_break_engine_by_lang M l) = lstm_model_lao M) \<and>
           (l = BURMESE \<longrightarrow>
              get_break_engine_by_lang M l = LSTMData_init (lstm_model_burmese M) \<and>
              model (get_break_engine_by_lang M l) = lstm_model_burmese M) \<and>
           (l = KHMER \<longrightarrow> get_break_engine_by_lang M l = LSTMData_init (lstm_model_khmer M) \<and>
                           model (get_break_engine_by_lang M l) = lstm_model_khmer M)"
proof (cases "rangeStart \<le> rangeEnd")
  case True
  note F = BreakSALine_facts[OF True, of ops M tx, folded st_def]
  have eng: "(l = THAI \<longrightarrow> get_break_engine_by_lang M l = LSTMData_init (lstm_model_thai M) \<and>
                          model (get_break_engine_by_lang M l) = lstm_model_thai M) \<and>
           (l = LAO \<longrightarrow> get_break_engine_by_lang M l = LSTMData_init (lstm_model_lao M) \<and>
                         model (get_break_engine_by_lang M l) = lstm_model_lao M) \<and>
           (l = BURMESE \<longrightarrow>
              get_break_engine_by_lang M l = LSTMData_init (lstm_model_burmese M) \<and>
              model (get_break_engine_by_lang M l) = lstm_model_burmese M) \<and>
           (l = KHMER \<longrightarrow> get_break_engine_by_lang M l = LSTMData_init (lstm_model_khmer M) \<and>
                           model (get_break_engine_by_lang M l) = lstm_model_khmer M)" for l
    by (simp add: get_break_engine_by_lang_def LSTMData_init_def Let_def)
  have one: "s < e \<and> l \<noteq> UNK \<and> rangeStart \<le> s \<and> e \<le> rangeEnd \<and>
           (\<forall>p. s \<le> p \<and> p < e \<longrightarrow> classify_language (tx p) = l) \<and>
           (e < rangeEnd \<longrightarrow> classify_language (tx e) \<noteq> l) \<and>
           r = fst (breakWord ops (get_break_engine_by_lang M l) tx s e)"
    if mem: "(l, s, e, r) \<in> set (calls st)" for l s e r
  proof -
    obtain c where c: "c \<in> set (chunks st)" "chunk_flushed c"
        "(l, s, e, r) = chunk_call ops M tx c"
      using mem unfolding F(3) by auto
    then have lse: "c = (l, s, e)"
      and r: "r = fst (breakWord ops (get_break_engine_by_lang M l) tx s e)"
      by (auto simp: chunk_call_def split: prod.splits)
    have l: "l \<noteq> UNK" using c(2) by (simp add: chunk_flushed_def lse)
    have ok: "(\<forall>p. s \<le> p \<and> p < e \<longrightarrow> classify_language (tx p) = l) \<and>
           rangeStart \<le> s \<and> e \<le> rangeEnd \<and>
           (s < e \<or> (l = UNK \<and> s = rangeStart \<and> e = rangeStart)) \<and>
           (e < rangeEnd \<longrightarrow> classify_language (tx e) \<noteq> l)"
      using F(2) c(1) unfolding lse by fastforce
    show ?thesis using ok l r by auto
  qed
  show ?thesis
  proof (clarify)
    fix l s e r
    assume mem: "(l, s, e, r) \<in> set (calls st)"
    show "s < e \<and> l \<noteq> UNK \<and> rangeStart \<le> s \<and> e \<le> rangeEnd \<and>
           (\<forall>p. s \<le> p \<and> p < e \<longrightarrow> classify_language (tx p) = l) \<and>
           (e < rangeEnd \<longrightarrow> classify_language (tx e) \<noteq> l) \<and>
           r = fst (breakWord ops (get_break_engine_by_lang M l) tx s e) \<and>
           (l = THAI \<longrightarrow> get_break_engine_by_lang M l = LSTMData_init (lstm_model_thai M) \<and>
                          model (get_break_engine_by_lang M l) = lstm_model_thai M) \<and>
           (l = LAO \<longrightarrow> get_break_engine_by_lang M l = LSTMData_init (lstm_model_lao M) \<and>
                         model (get_break_engine_by_lang M l) = lstm_model_lao M) \<and>
           (l = BURMESE \<longrightarrow>
              get_break_engine_by_lang M l = LSTMData_init (lstm_model_burmese M) \<and>
              model (get_break_engine_by_lang M l) = lstm_model_burmese M) \<and>
           (l = KHMER \<longrightarrow> get_break_engine_by_lang M l = LSTMData_init (lstm_model_khmer M) \<and>
                           model (get_break_engine_by_lang M l) = lstm_model_khmer M)"
      using one[OF mem] eng[of l] by blast
  qed
next
  case False
  then have "rangeEnd < rangeStart" by simp
  then have "st = \<lparr>lang_chunk_start = rangeStart, chunk_lang = UNK,
      chunks = [(UNK, rangeStart, rangeEnd)], calls = [], breaks = []\<rparr>"
    unfolding st_def by (rule BreakSALine_reversed)
  then show ?thesis by simp
qed

theorem BreakSALine_engine_calls_witness:
  "calls (snd (BreakSALine real_ops toy_models example_text 0 5)) =
     [(THAI, 1, 3, 0), (LAO, 3, 4, 0)] \<and>
   (1::int) < 3 \<and> THAI \<noteq> UNK \<and> (0::int) \<le> 1 \<and> (3::int) \<le> 5 \<and>
   classify_language (example_text 1) = THAI \<and> classify_language (example_text 2) = THAI \<and>
   classify_language (example_text 3) \<noteq> THAI \<and>
   fst (breakWord real_ops (get_break_engine_by_lang toy_models THAI) example_text 1 3) = 0 \<and>
   model (get_break_engine_by_lang toy_models THAI) = toy_model 0 \<and>
   model (get_break_engine_by_lang toy_models LAO) = toy_model 1 \<and>
   toy_model 0 \<noteq> toy_model 1"
proof -
  have ev: "calls (snd (BreakSALine real_ops toy_models example_text 0 5)) =
     [(THAI, 1, 3, 0), (LAO, 3, 4, 0)]"
    by (simp add: example_run)
  note T = BreakSALine_engine_calls[of real_ops toy_models example_text 0 5]
  have thai: "(THAI, 1, 3, 0) \<in> set (calls (snd (BreakSALine real_ops toy_models example_text 0 5)))"
    and lao: "(LAO, 3, 4, 0) \<in> set (calls (snd (BreakSALine real_ops toy_models example_text 0 5)))"
    by (simp_all add: ev)
  have "(1::int) < 3 \<and> THAI \<noteq> UNK \<and> (0::int) \<le> 1 \<and> (3::int) \<le> 5 \<and>
     (\<forall>p. 1 \<le> p \<and> p < 3 \<longrightarrow> classify_language (example_text p) = THAI) \<and>
     (3 < (5::int) \<longrightarrow> classify_language (example_text 3) \<noteq> THAI) \<and>
     0 = fst (breakWord real_ops (get_break_engine_by_lang toy_models THAI) example_text 1 3)"
    using T thai by fast
  moreover have "model (get_break_engine_by_lang toy_models THAI) = lstm_model_thai toy_models"
    using T thai by fast
  moreover have "model (get_break_engine_by_lang toy_models LAO) = lstm_model_lao toy_models"
    using T lao by fast
  moreover have "toy_model 0 \<noteq> toy_model 1"
  proof
    assume "toy_model 0 = toy_model 1"
    then have "matrices (toy_model 0) 33 = matrices (toy_model 1) 33" by simp
    then show False by (simp add: toy_model_def)
  qed
  ultimately show ?thesis using ev by (simp add: toy_models_def)
qed

text \<open>Claim C1, evaluated where the code departs from it. On 2049 Thai letters
  followed by two Lao letters the Thai engine is invoked on the first chunk and returns
  \<open>-1\<close>; \<open>BreakSALine\<close> goes on, invokes the Lao engine on the second chunk, and
  returns 0.\<close>

theorem BreakSALine_drops_engine_failure:
  "fst (BreakSALine ops M long_text 0 2051) = 0 \<and>
   calls (snd (BreakSALine ops M long_text 0 2051)) =
     [(THAI, 0, 2049, - 1), (LAO, 2049, 2051, 0)]"
proof -
  define st0 :: SA_state where "st0 = \<lparr>lang_chunk_start = 0, chunk_lang = UNK, chunks = [], calls = [], breaks = []\<rparr>"
  define st1 :: SA_state where "st1 = \<lparr>lang_chunk_start = 0, chunk_lang = THAI, chunks = [(UNK, 0, 0)], calls = [], breaks = []\<rparr>"
  define st2 :: SA_state where "st2 = \<lparr>lang_chunk_start = 2049, chunk_lang = LAO,
     chunks = [(UNK, 0, 0), (THAI, 0, 2049)], calls = [(THAI, 0, 2049, - 1)], breaks = []\<rparr>"
  have thai: "classify_language (long_text p) = THAI" if "p < 2049" for p
    using that by (simp add: long_text_def classify_language_def)
  have lao: "classify_language (long_text p) = LAO" if "2049 \<le> p" for p
    using that by (simp add: long_text_def classify_language_def)
  have b0: "BreakSALine_body ops M long_text 0 st0 = st1"
    by (simp add: BreakSALine_body_def thai st0_def st1_def)
  have fail: "breakWord ops (get_break_engine_by_lang M THAI) long_text 0 2049 = (- 1, [])"
    by (simp add: breakWord_def int32_def)
  have b1: "BreakSALine_body ops M long_text 2049 st1 = st2"
    by (simp add: BreakSALine_body_def lao st1_def st2_def flush_def fail)
  have "BreakSALine_loop ops M long_text 2051 0 st0 = BreakSALine_loop ops M long_text 2051 1 st1"
    by (subst BreakSALine_loop.simps) (simp add: b0)
  also have "\<dots> = BreakSALine_loop ops M long_text 2051 2049 st1"
    by (rule BreakSALine_loop_run) (simp_all add: thai st1_def)
  also have "\<dots> = BreakSALine_loop ops M long_text 2051 2050 st2"
    by (subst BreakSALine_loop.simps) (simp add: b1)
  also have "\<dots> = BreakSALine_loop ops M long_text 2051 2051 st2"
    by (rule BreakSALine_loop_run) (simp_all add: lao st2_def)
  also have "\<dots> = st2"
    by (subst BreakSALine_loop.simps) simp
  finally have loop: "BreakSALine_loop ops M long_text 2051 0 st0 = st2" .
  show ?thesis
    unfolding BreakSALine_def Let_def st0_def[symmetric] loop
    by (simp add: st2_def flush_simps chunk_call_def breakWord_fst int32_def)
qed

end
